theory Spec2Isabelle
  imports Complex_Main "HOL-Library.Sublist"
begin

section \<open>Strings and character classes\<close>

text \<open>
  A Python \<^verbatim>\<open>str\<close> is modelled as a \<^typ>\<open>string\<close>, a list of characters, each
  character standing for the code point of the same number (U+0000 to U+00FF).  On
  these code points the classes below are the ones Python uses: \<^verbatim>\<open>str.strip()\<close> and
  the pattern class \<^verbatim>\<open>\s\<close> remove or match the characters for which
  \<^verbatim>\<open>str.isspace()\<close> holds, \<^verbatim>\<open>\d\<close> matches the decimal digits, and under
  \<^verbatim>\<open>re.IGNORECASE\<close> a letter of the pattern matches both of its cases.
\<close>

definition is_space :: "char \<Rightarrow> bool" where
  "is_space c \<longleftrightarrow>
     c \<in> {CHR 0x09, CHR 0x0A, CHR 0x0B, CHR 0x0C, CHR 0x0D,
          CHR 0x1C, CHR 0x1D, CHR 0x1E, CHR 0x1F, CHR 0x20, CHR 0x85, CHR 0xA0}"

definition is_digit :: "char \<Rightarrow> bool" where
  "is_digit c \<longleftrightarrow> 48 \<le> (of_char c :: nat) \<and> (of_char c :: nat) \<le> 57"

definition is_letter :: "char \<Rightarrow> bool" where
  "is_letter c \<longleftrightarrow>
     65 \<le> (of_char c :: nat) \<and> (of_char c :: nat) \<le> 90 \<or>
     97 \<le> (of_char c :: nat) \<and> (of_char c :: nat) \<le> 122"

text \<open>\<^verbatim>\<open>[NSEW]\<close>, case-insensitive.\<close>

definition is_compass :: "char \<Rightarrow> bool" where
  "is_compass c \<longleftrightarrow>
     c \<in> {CHR ''N'', CHR ''S'', CHR ''E'', CHR ''W'', CHR ''n'', CHR ''s'', CHR ''e'', CHR ''w''}"

text \<open>\<^verbatim>\<open>[^,]\<close>: any character but the comma, line breaks included.\<close>

definition not_comma :: "char \<Rightarrow> bool" where
  "not_comma c \<longleftrightarrow> c \<noteq> CHR '',''"

text \<open>\<^verbatim>\<open>[A-Za-z ]\<close>: a letter or the space character (and no other whitespace).\<close>

definition is_state_char :: "char \<Rightarrow> bool" where
  "is_state_char c \<longleftrightarrow> is_letter c \<or> c = CHR '' ''"

text \<open>A literal letter of the pattern, under \<^verbatim>\<open>re.IGNORECASE\<close>: \<open>lit_ci l u\<close> accepts
  the lower-case letter \<open>l\<close> and the upper-case letter \<open>u\<close>.\<close>

definition lit_ci :: "char \<Rightarrow> char \<Rightarrow> char \<Rightarrow> bool" where
  "lit_ci l u c \<longleftrightarrow> c = l \<or> c = u"

definition is_comma :: "char \<Rightarrow> bool" where
  "is_comma c \<longleftrightarrow> c = CHR '',''"

text \<open>\<^verbatim>\<open>str.strip()\<close>: whitespace removed at both ends.\<close>

definition strip :: "string \<Rightarrow> string" where
  "strip s = rev (dropWhile is_space (rev (dropWhile is_space s)))"


section \<open>Regular expressions with backtracking\<close>

text \<open>
  The pattern of \<^verbatim>\<open>parse_place\<close> uses single characters and character classes,
  greedy and lazy repetition of a class, sequencing, the greedy optional group
  \<^verbatim>\<open>(...)?\<close>, named groups and the anchor \<^verbatim>\<open>$\<close>.  A match state is the input that
  is left together with the groups captured so far.  \<open>ms r x\<close> lists every way the
  expression \<open>r\<close> can match at the state \<open>x\<close>, in the order in which Python's
  backtracking matcher tries them; the match that \<^verbatim>\<open>re.match\<close> reports is the first
  one of the whole pattern.
\<close>

type_synonym groups = "string \<rightharpoonup> string"
type_synonym mstate = "string \<times> groups"

datatype regex =
    Chr "char \<Rightarrow> bool"
  | Greedy nat "nat option" "char \<Rightarrow> bool"
  | Lazy nat "char \<Rightarrow> bool"
  | Seq regex regex
  | Opt regex
  | Grp string regex
  | Eos

text \<open>The number of characters at the start of the input that are in a class.\<close>

definition class_run :: "(char \<Rightarrow> bool) \<Rightarrow> string \<Rightarrow> nat" where
  "class_run p s = length (takeWhile p s)"

definition upto_max :: "nat option \<Rightarrow> nat \<Rightarrow> nat" where
  "upto_max hi n = (case hi of None \<Rightarrow> n | Some h \<Rightarrow> min h n)"

text \<open>
  \<open>Greedy lo hi p\<close> is \<^verbatim>\<open>p{lo,hi}\<close> (\<open>hi = None\<close> for no upper bound): the longest run
  is tried first.  \<open>Lazy lo p\<close> is \<^verbatim>\<open>p{lo,}?\<close>: the shortest run is tried first.
  \<open>Eos\<close> is \<^verbatim>\<open>$\<close> without \<^verbatim>\<open>re.MULTILINE\<close>: the end of the input, or the
  position before a line feed that ends the input.
\<close>

fun ms :: "regex \<Rightarrow> mstate \<Rightarrow> mstate list" where
  "ms (Chr p) (s, g) = (case s of [] \<Rightarrow> [] | c # cs \<Rightarrow> if p c then [(cs, g)] else [])"
| "ms (Greedy lo hi p) (s, g) =
     map (\<lambda>k. (drop k s, g)) (rev [lo ..< Suc (upto_max hi (class_run p s))])"
| "ms (Lazy lo p) (s, g) = map (\<lambda>k. (drop k s, g)) [lo ..< Suc (class_run p s)]"
| "ms (Seq a b) x = concat (map (ms b) (ms a x))"
| "ms (Opt a) x = ms a x @ [x]"
| "ms (Grp n a) (s, g) =
     map (\<lambda>(s', g'). (s', g'(n \<mapsto> take (length s - length s') s))) (ms a (s, g))"
| "ms Eos (s, g) = (if s = [] \<or> s = [CHR 0x0A] then [(s, g)] else [])"

definition re_match :: "regex \<Rightarrow> string \<Rightarrow> groups option" where
  "re_match r s = (case ms r (s, Map.empty) of [] \<Rightarrow> None | (rest, g) # _ \<Rightarrow> Some g)"


section \<open>The place parser\<close>

text \<open>The whitespace run \<^verbatim>\<open>\s*\<close>.\<close>

definition ws :: regex where
  "ws = Greedy 0 None is_space"

text \<open>\<^verbatim>\<open>(?P<distance>\d+\s*km)\s*\<close>, the body of the first optional group.\<close>

definition distance_part :: regex where
  "distance_part =
     Seq (Grp ''distance''
            (Seq (Greedy 1 None is_digit)
              (Seq ws (Seq (Chr (lit_ci CHR ''k'' CHR ''K'')) (Chr (lit_ci CHR ''m'' CHR ''M''))))))
         ws"

text \<open>\<^verbatim>\<open>(?P<direction>[NSEW]{1,3})\s*of\s*\<close>, the body of the second optional group.\<close>

definition direction_part :: regex where
  "direction_part =
     Seq (Grp ''direction'' (Greedy 1 (Some 3) is_compass))
       (Seq ws (Seq (Chr (lit_ci CHR ''o'' CHR ''O'')) (Seq (Chr (lit_ci CHR ''f'' CHR ''F'')) ws)))"

text \<open>\<^verbatim>\<open>,\s*(?P<state>[A-Za-z ]+)\<close>, the body of the last optional group.\<close>

definition state_part :: regex where
  "state_part = Seq (Chr is_comma) (Seq ws (Grp ''state'' (Greedy 1 None is_state_char)))"

text \<open>\<^verbatim>\<open>(?P<nearest>[^,]+?)(?:,\s*(?P<state>[A-Za-z ]+))?$\<close>\<close>

definition nearest_part :: regex where
  "nearest_part = Seq (Grp ''nearest'' (Lazy 1 not_comma)) (Seq (Opt state_part) Eos)"

definition place_pattern :: regex where
  "place_pattern = Seq (Opt distance_part) (Seq (Opt direction_part) nearest_part)"

datatype py_error = AttributeError | KeyError | ValueError | IOError

record place_fields =
  distance :: "string option"
  direction :: "string option"
  nearest :: "string option"
  state :: "string option"

text \<open>
  \<^verbatim>\<open>parse_place\<close>.  The pattern is matched against the stripped text.  Without a
  match the text itself is returned as \<open>nearest\<close>.  With a match the four groups are
  read; \<^verbatim>\<open>m.group("nearest").strip()\<close> raises \<^verbatim>\<open>AttributeError\<close> should the group
  be \<^verbatim>\<open>None\<close>.
\<close>

definition parse_place :: "string \<Rightarrow> py_error + place_fields" where
  "parse_place txt =
     (case re_match place_pattern (strip txt) of
        None \<Rightarrow> Inr \<lparr>distance = None, direction = None, nearest = Some txt, state = None\<rparr>
      | Some m \<Rightarrow>
          (case m ''nearest'' of
             None \<Rightarrow> Inl AttributeError
           | Some n \<Rightarrow>
               Inr \<lparr>distance = m ''distance'', direction = m ''direction'',
                    nearest = Some (strip n), state = m ''state''\<rparr>))"


section \<open>Cells of a data frame\<close>

text \<open>
  A cell of a pandas column is missing (\<^verbatim>\<open>None\<close> or \<^verbatim>\<open>NaN\<close>, which
  \<^verbatim>\<open>pd.isna\<close> and \<^verbatim>\<open>dropna\<close> treat alike), a string, or a number.  A
  number is modelled by the real it denotes; the stages below compute nothing from it.
\<close>

datatype cell = NA | Str string | Num real

definition cell_of :: "string option \<Rightarrow> cell" where
  "cell_of x = (case x of None \<Rightarrow> NA | Some s \<Rightarrow> Str s)"


section \<open>State names, countries and regions\<close>

definition us_regions :: "(string \<times> string list) list" where
  "us_regions =
    [(''Northeast'',
        [''Connecticut'', ''Massachusetts'', ''Maine'', ''New Hampshire'',
         ''Rhode Island'', ''Vermont'', ''New Jersey'', ''New York'', ''Pennsylvania'']),
     (''Midwest'',
        [''Illinois'', ''Indiana'', ''Iowa'', ''Kansas'', ''Michigan'', ''Minnesota'',
         ''Missouri'', ''Nebraska'', ''North Dakota'', ''Ohio'', ''South Dakota'', ''Wisconsin'']),
     (''South'',
        [''Alabama'', ''Arkansas'', ''Delaware'', ''Florida'', ''Georgia'', ''Kentucky'',
         ''Louisiana'', ''Maryland'', ''Mississippi'', ''North Carolina'', ''Oklahoma'',
         ''South Carolina'', ''Tennessee'', ''Texas'', ''Virginia'', ''West Virginia'']),
     (''West'',
        [''Alaska'', ''Arizona'', ''California'', ''Colorado'', ''Hawaii'', ''Idaho'',
         ''Montana'', ''Nevada'', ''New Mexico'', ''Oregon'', ''Utah'', ''Washington'', ''Wyoming''])]"

definition state_mapping :: "(string \<times> string) list" where
  "state_mapping =
    [(''CA'', ''California''), (''NV'', ''Nevada''), (''OR'', ''Oregon''), (''AK'', ''Alaska''),
     (''AZ'', ''Arizona''), (''AR'', ''Arkansas''), (''CO'', ''Colorado''), (''CT'', ''Connecticut''),
     (''DE'', ''Delaware''), (''FL'', ''Florida''), (''GA'', ''Georgia''), (''HI'', ''Hawaii''),
     (''ID'', ''Idaho''), (''IL'', ''Illinois''), (''IN'', ''Indiana''), (''IA'', ''Iowa''),
     (''KS'', ''Kansas''), (''KY'', ''Kentucky''), (''LA'', ''Louisiana''), (''ME'', ''Maine''),
     (''MD'', ''Maryland''), (''MA'', ''Massachusetts''), (''MI'', ''Michigan''), (''MN'', ''Minnesota''),
     (''MS'', ''Mississippi''), (''MO'', ''Missouri''), (''MT'', ''Montana''), (''NE'', ''Nebraska''),
     (''NH'', ''New Hampshire''), (''NJ'', ''New Jersey''), (''NM'', ''New Mexico''), (''NY'', ''New York''),
     (''NC'', ''North Carolina''), (''ND'', ''North Dakota''), (''OH'', ''Ohio''), (''OK'', ''Oklahoma''),
     (''PA'', ''Pennsylvania''), (''RI'', ''Rhode Island''), (''SC'', ''South Carolina''),
     (''SD'', ''South Dakota''), (''TN'', ''Tennessee''), (''TX'', ''Texas''), (''UT'', ''Utah''),
     (''VT'', ''Vermont''), (''VA'', ''Virginia''), (''WA'', ''Washington''), (''WV'', ''West Virginia''),
     (''WI'', ''Wisconsin''), (''WY'', ''Wyoming'')]"

text \<open>
  \<^verbatim>\<open>expand_state_name\<close>: a missing value is returned as it is; a string is stripped
  and looked up, \<^verbatim>\<open>self.state_mapping.get(state_clean, state_clean)\<close>; any other
  value has no \<^verbatim>\<open>strip\<close>.
\<close>

definition expand_state_name :: "cell \<Rightarrow> py_error + cell" where
  "expand_state_name st =
     (case st of
        NA \<Rightarrow> Inr NA
      | Num v \<Rightarrow> Inl AttributeError
      | Str s \<Rightarrow>
          (let state_clean = strip s
           in Inr (Str (case map_of state_mapping state_clean of
                          Some full \<Rightarrow> full
                        | None \<Rightarrow> state_clean))))"

definition us_states :: "string set" where
  "us_states =
    {''California'', ''Alaska'', ''Hawaii'', ''Texas'', ''Washington'', ''Montana'',
     ''New Mexico'', ''Utah'', ''Idaho'', ''Oregon'', ''Wyoming'', ''Colorado'',
     ''New Jersey'', ''Tennessee'', ''Missouri'', ''Arkansas'', ''Arizona'',
     ''Kansas'', ''Georgia'', ''Maine'', ''South Carolina'', ''Nevada'',
     ''North Carolina'', ''New York'', ''Louisiana'', ''Connecticut'',
     ''Illinois'', ''Oklahoma'', ''Kentucky'', ''New Hampshire'', ''Virginia'',
     ''Nebraska'', ''South Dakota'', ''Minnesota'', ''Alabama'', ''Massachusetts'',
     ''Pennsylvania'', ''Maryland'', ''West Virginia'', ''Mississippi'',
     ''Wisconsin'', ''Florida'', ''Indiana''}"

definition us_territories :: "string set" where
  "us_territories = {''Puerto Rico'', ''Guam'', ''Northern Mariana Islands'', ''American Samoa''}"

definition get_country_continent :: "cell \<Rightarrow> py_error + (string \<times> string)" where
  "get_country_continent st =
     (case st of
        NA \<Rightarrow> Inr (''Unknown'', ''Unknown'')
      | Num v \<Rightarrow> Inl AttributeError
      | Str s \<Rightarrow>
          (let state_clean = strip s
           in if state_clean \<in> us_states \<or> state_clean \<in> us_territories
              then Inr (''United States'', ''North America'')
              else Inr (''Unknown'', ''Unknown'')))"

text \<open>
  The reverse index that \<^verbatim>\<open>add_regions_and_finalize\<close> builds: the two nested loops
  store \<open>state_to_region[state] = region\<close> for every state of every bucket, a later
  store replacing an earlier one.
\<close>

definition state_to_region :: "string \<rightharpoonup> string" where
  "state_to_region =
     fold (\<lambda>(region, states) m. fold (\<lambda>st m'. m'(st \<mapsto> region)) states m) us_regions Map.empty"

text \<open>
  \<^verbatim>\<open>df['state'].map(state_to_region)\<close> followed by \<^verbatim>\<open>fillna('Non-US')\<close>, on one
  cell: a value that is no key of the index (a missing value and a number among them)
  is mapped to \<^verbatim>\<open>NaN\<close> and then filled.
\<close>

definition region_of :: "cell \<Rightarrow> string" where
  "region_of st =
     (case st of
        Str s \<Rightarrow> (case state_to_region s of Some r \<Rightarrow> r | None \<Rightarrow> ''Non-US'')
      | _ \<Rightarrow> ''Non-US'')"


section \<open>Data frames\<close>

text \<open>
  A row lists its cells by column name, in column order; a frame is the list of its
  rows.  \<^verbatim>\<open>dropna()\<close> keeps the rows without a missing cell.  \<^verbatim>\<open>Series.apply\<close>
  calls its function on one row after the other, and the first exception ends it.
\<close>

type_synonym row = "(string \<times> cell) list"
type_synonym frame = "row list"

definition notna :: "cell \<Rightarrow> bool" where
  "notna v = (case v of NA \<Rightarrow> False | _ \<Rightarrow> True)"

definition complete :: "row \<Rightarrow> bool" where
  "complete r = list_all (\<lambda>(c, v). notna v) r"

definition dropna :: "frame \<Rightarrow> frame" where
  "dropna df = filter complete df"

fun map_rows :: "('a \<Rightarrow> py_error + 'b) \<Rightarrow> 'a list \<Rightarrow> py_error + 'b list" where
  "map_rows f [] = Inr []"
| "map_rows f (r # rs) =
     (case f r of
        Inl e \<Rightarrow> Inl e
      | Inr r' \<Rightarrow> (case map_rows f rs of Inl e \<Rightarrow> Inl e | Inr rs' \<Rightarrow> Inr (r' # rs')))"

definition then_do :: "py_error + 'a \<Rightarrow> ('a \<Rightarrow> py_error + 'b) \<Rightarrow> py_error + 'b" where
  "then_do x f = (case x of Inl e \<Rightarrow> Inl e | Inr y \<Rightarrow> f y)"

text \<open>
  \<^verbatim>\<open>df[c].apply(f)\<close> reads the column \<open>c\<close> of every row.  Without a column of that
  name \<^verbatim>\<open>df[c]\<close> raises \<^verbatim>\<open>KeyError\<close>.  With several columns of that name
  \<^verbatim>\<open>df[c]\<close> is a frame, \<open>f\<close> is called on whole columns and raises; \<open>dup\<close> is
  that exception.
\<close>

definition col :: "string \<Rightarrow> py_error \<Rightarrow> row \<Rightarrow> py_error + cell" where
  "col c dup r =
     (case filter (\<lambda>(k, x). k = c) r of
        [] \<Rightarrow> Inl KeyError
      | [(k, x)] \<Rightarrow> Inr x
      | _ \<Rightarrow> Inl dup)"

text \<open>\<^verbatim>\<open>df[c] = v\<close> on one row: an existing column is overwritten, a new one is appended.\<close>

definition put_col :: "string \<Rightarrow> cell \<Rightarrow> row \<Rightarrow> row" where
  "put_col c v r =
     (if c \<in> fst ` set r then map (\<lambda>(k, x). if k = c then (k, v) else (k, x)) r
      else r @ [(c, v)])"

text \<open>\<^verbatim>\<open>df.drop(columns, axis=1, errors='ignore')\<close> on one row.\<close>

definition drop_cols :: "string list \<Rightarrow> row \<Rightarrow> row" where
  "drop_cols cs r = filter (\<lambda>(k, x). k \<notin> set cs) r"


section \<open>Step 2: cleaning and transforming\<close>

text \<open>
  \<^verbatim>\<open>df["place"].apply(self.parse_place).apply(pd.Series)\<close> followed by
  \<^verbatim>\<open>pd.concat([df, parsed], axis=1)\<close>, on one row: the four entries of the dictionary
  become four further columns.  A value of the place column that is no string has no
  \<^verbatim>\<open>strip\<close>.
\<close>

definition parsed_columns :: "place_fields \<Rightarrow> row" where
  "parsed_columns d =
     [(''distance'', cell_of (distance d)), (''direction'', cell_of (direction d)),
      (''nearest'', cell_of (nearest d)), (''state'', cell_of (state d))]"

definition add_parsed :: "row \<Rightarrow> py_error + row" where
  "add_parsed r =
     then_do (col ''place'' AttributeError r) (\<lambda>x.
       case x of
         Str txt \<Rightarrow> then_do (parse_place txt) (\<lambda>d. Inr (r @ parsed_columns d))
       | _ \<Rightarrow> Inl AttributeError)"

text \<open>\<^verbatim>\<open>df['state'] = df['state'].apply(self.expand_state_name)\<close>, on one row.\<close>

definition expand_state_col :: "row \<Rightarrow> py_error + row" where
  "expand_state_col r =
     then_do (col ''state'' ValueError r) (\<lambda>st.
     then_do (expand_state_name st) (\<lambda>st'. Inr (put_col ''state'' st' r)))"

text \<open>\<^verbatim>\<open>df[['country', 'continent']] = df['state'].apply(...)\<close>, on one row.\<close>

definition add_country_continent :: "row \<Rightarrow> py_error + row" where
  "add_country_continent r =
     then_do (col ''state'' ValueError r) (\<lambda>st.
     then_do (get_country_continent st)
       (\<lambda>(country, continent).
          Inr (put_col ''continent'' (Str continent) (put_col ''country'' (Str country) r))))"

definition rename_column :: "string \<Rightarrow> string" where
  "rename_column c =
     (if c = ''id'' then ''earthquake_id''
      else if c = ''direction'' then ''offset_direction''
      else if c = ''distance'' then ''offset_distance''
      else if c = ''nearest'' then ''nearest_locality''
      else c)"

definition rename_columns :: "row \<Rightarrow> row" where
  "rename_columns r = map (\<lambda>(k, x). (rename_column k, x)) r"

text \<open>
  \<^verbatim>\<open>clean_and_transform_data\<close>, called with a frame, from the first \<^verbatim>\<open>dropna\<close>
  to the returned frame (the prints and the CSV file written on the way are left out).
  Two steps depend on there being a row.  With no row, \<^verbatim>\<open>.apply(pd.Series)\<close> yields
  no columns, so that \<^verbatim>\<open>df['state']\<close> raises \<^verbatim>\<open>KeyError\<close>.  With no row left after
  the second \<^verbatim>\<open>dropna\<close>, the \<^verbatim>\<open>apply\<close> in the assignment of the two columns
  \<^verbatim>\<open>country\<close> and \<^verbatim>\<open>continent\<close> yields an empty series in place of a frame of two
  columns, and the assignment raises \<^verbatim>\<open>ValueError\<close>.
\<close>

definition clean_and_transform_data :: "frame \<Rightarrow> py_error + frame" where
  "clean_and_transform_data df0 =
     (let df1 = dropna df0 in
      then_do (map_rows add_parsed df1) (\<lambda>df2.
      let df3 = dropna df2 in
      if df1 = [] then Inl KeyError else
      then_do (map_rows expand_state_col df3) (\<lambda>df4.
      if df4 = [] then Inl ValueError else
      then_do (map_rows add_country_continent df4) (\<lambda>df5.
      let df6 = map rename_columns df5;
          df7 = map (drop_cols [''place'']) df6;
          df8 = filter (\<lambda>r. map_of r ''continent'' \<noteq> Some (Str ''Unknown'')) df7;
          df9 = filter (\<lambda>r. map_of r ''country'' = Some (Str ''United States'')) df8
      in Inr df9))))"

text \<open>
  The steps that \<^verbatim>\<open>clean_and_transform_data\<close> applies to a row that has passed the
  second \<^verbatim>\<open>dropna\<close>, up to the two filters.
\<close>

definition finish_row :: "row \<Rightarrow> py_error + row" where
  "finish_row r =
     then_do (expand_state_col r) (\<lambda>r4.
     then_do (add_country_continent r4) (\<lambda>r5.
     Inr (drop_cols [''place''] (rename_columns r5))))"


section \<open>Step 3: counties\<close>

text \<open>
  \<^verbatim>\<open>gpd.sjoin(gdf_eq, gdf_counties[["NAME", "geometry"]], how="left",
  predicate="intersects")\<close> is a call of the geopandas library.  It is modelled by what
  a left join is: a row of the left frame is emitted once for every county whose
  geometry intersects its point, with the index and the name of that county, and once
  with both missing when no county does.  The geometric predicate is the parameter
  \<open>isect\<close>, the point being the pair of the longitude and the latitude cell; \<open>'g\<close>
  is the type of the county geometries.
\<close>

definition county_rows ::
  "(cell \<times> cell \<Rightarrow> 'g \<Rightarrow> bool) \<Rightarrow> (string \<times> 'g) list \<Rightarrow> row \<Rightarrow> cell \<times> cell \<Rightarrow> row list" where
  "county_rows isect counties r pt =
     (case filter (\<lambda>(i, name, geom). isect pt geom) (enumerate 0 counties) of
        [] \<Rightarrow> [r @ [(''index_right'', NA), (''county'', NA)]]
      | hits \<Rightarrow>
          map (\<lambda>(i, name, geom). r @ [(''index_right'', Num (of_nat i)), (''county'', Str name)]) hits)"

text \<open>
  \<^verbatim>\<open>add_county_data\<close>, from the check of the coordinate columns to the returned
  frame: the join, the renaming of \<^verbatim>\<open>NAME\<close> to \<^verbatim>\<open>county\<close>, and the geometry column
  dropped again.
\<close>

definition add_county_data ::
  "(cell \<times> cell \<Rightarrow> 'g \<Rightarrow> bool) \<Rightarrow> (string \<times> 'g) list \<Rightarrow> frame \<Rightarrow> py_error + frame" where
  "add_county_data isect counties df =
     then_do
       (map_rows
          (\<lambda>r. case (map_of r ''longitude'', map_of r ''latitude'') of
                  (Some lon, Some lat) \<Rightarrow> Inr (county_rows isect counties r (lon, lat))
                | _ \<Rightarrow> Inl KeyError) df)
       (\<lambda>joined. Inr (concat joined))"

text \<open>
  County geometries for examples: a county is an axis-parallel box, given by its
  lower left and upper right corner, boundary included, and it intersects the points
  that lie in it.
\<close>

definition box_intersects :: "cell \<times> cell \<Rightarrow> (real \<times> real) \<times> (real \<times> real) \<Rightarrow> bool" where
  "box_intersects pt box =
     (case pt of
        (Num x, Num y) \<Rightarrow> fst (fst box) \<le> x \<and> x \<le> fst (snd box) \<and> snd (fst box) \<le> y \<and> y \<le> snd (snd box)
      | _ \<Rightarrow> False)"


section \<open>Step 4: regions\<close>

text \<open>
  \<^verbatim>\<open>add_regions_and_finalize\<close>, from its \<^verbatim>\<open>dropna\<close> to the returned frame.  The
  last step removes the unit from the offset distance with
  \<^verbatim>\<open>.str.replace(r'\s*km', '', regex=True)\<close> and converts the rest with
  \<^verbatim>\<open>.astype(float)\<close>; what this does to one cell is the parameter
  \<open>clean_distance\<close>.
\<close>

definition add_region :: "row \<Rightarrow> py_error + row" where
  "add_region r =
     then_do (col ''state'' AttributeError r) (\<lambda>st. Inr (put_col ''region'' (Str (region_of st)) r))"

definition add_regions_and_finalize :: "(cell \<Rightarrow> py_error + cell) \<Rightarrow> frame \<Rightarrow> py_error + frame" where
  "add_regions_and_finalize clean_distance df0 =
     (let df1 = dropna df0 in
      then_do (map_rows add_region df1) (\<lambda>df2.
      let df3 = map (drop_cols [''continent'', ''country'', ''index_right'']) df2;
          df4 = filter (\<lambda>r. map_of r ''region'' \<noteq> Some (Str ''Non-US'')) df3
      in map_rows
           (\<lambda>r. then_do (col ''offset_distance'' AttributeError r) (\<lambda>x.
                 then_do (clean_distance x) (\<lambda>y. Inr (put_col ''offset_distance'' y r))))
           df4))"

text \<open>Steps 2 to 4 of \<^verbatim>\<open>run_pipeline\<close>, one after the other.\<close>

definition run_stages ::
  "(cell \<times> cell \<Rightarrow> 'g \<Rightarrow> bool) \<Rightarrow> (string \<times> 'g) list \<Rightarrow> (cell \<Rightarrow> py_error + cell)
     \<Rightarrow> frame \<Rightarrow> py_error + frame" where
  "run_stages isect counties clean_distance df =
     then_do (clean_and_transform_data df) (\<lambda>df2.
     then_do (add_county_data isect counties df2) (\<lambda>df3.
     add_regions_and_finalize clean_distance df3))"

section \<open>Step 1: fetching\<close>

record response =
  status_code :: int
  content :: string

text \<open>What the pipeline prints while it fetches; dates are year, month and day.\<close>

type_synonym date = "int \<times> int \<times> int"

datatype message =
    Fetching date date
  | Retrieved nat
  | FetchFailed int int int

record query =
  format :: string
  starttime :: date
  endtime :: date
  minmagnitude :: int
  orderby :: string

definition isleap :: "int \<Rightarrow> bool" where
  "isleap year \<longleftrightarrow> year mod 4 = 0 \<and> (year mod 100 \<noteq> 0 \<or> year mod 400 = 0)"

text \<open>\<^verbatim>\<open>calendar.monthrange(year, month)[1]\<close>; a month outside 1 to 12 raises
  \<^verbatim>\<open>IllegalMonthError\<close>, a \<^verbatim>\<open>ValueError\<close>.\<close>

definition monthrange_days :: "int \<Rightarrow> int \<Rightarrow> py_error + int" where
  "monthrange_days year month =
     (if month < 1 \<or> 12 < month then Inl ValueError
      else Inr ([31, 28, 31, 30, 31, 30, 31, 31, 30, 31, 30, 31] ! nat (month - 1)
                + (if month = 2 \<and> isleap year then 1 else 0)))"

definition min_magnitude :: int where
  "min_magnitude = 0"

text \<open>
  \<^verbatim>\<open>fetch_month_data\<close>.  The request (\<^verbatim>\<open>requests.get\<close>) and the reading of the CSV
  text (\<^verbatim>\<open>decode\<close> and \<^verbatim>\<open>pd.read_csv\<close>) are parameters; either may raise.  The result
  is what was printed together with the frame or the exception.
\<close>

definition fetch_month_data ::
  "(query \<Rightarrow> py_error + response) \<Rightarrow> (string \<Rightarrow> py_error + frame) \<Rightarrow> int \<Rightarrow> int
     \<Rightarrow> message list \<times> (py_error + frame)" where
  "fetch_month_data http_get read_csv year month =
     (case monthrange_days year month of
        Inl e \<Rightarrow> ([], Inl e)
      | Inr last_day \<Rightarrow>
          (let start_date = (year, month, 1);
               end_date = (year, month, last_day);
               params = \<lparr>format = ''csv'', starttime = start_date, endtime = end_date,
                         minmagnitude = min_magnitude, orderby = ''time''\<rparr>;
               out = [Fetching start_date end_date]
           in case http_get params of
                Inl e \<Rightarrow> (out, Inl e)
              | Inr resp \<Rightarrow>
                  if status_code resp = 200
                  then (case read_csv (content resp) of
                          Inl e \<Rightarrow> (out, Inl e)
                        | Inr df \<Rightarrow> (out @ [Retrieved (length df)], Inr df))
                  else (out @ [FetchFailed year month (status_code resp)], Inr [])))"

text \<open>
  The loop of \<^verbatim>\<open>load_earthquake_data\<close> over the months that are left, \<open>all_data\<close>
  being the frames collected so far: a month's frame is appended unless it is empty.
\<close>

fun load_months ::
  "(query \<Rightarrow> py_error + response) \<Rightarrow> (string \<Rightarrow> py_error + frame) \<Rightarrow> (int \<times> int) list
     \<Rightarrow> frame list \<Rightarrow> message list \<times> (py_error + frame list)" where
  "load_months http_get read_csv [] all_data = ([], Inr all_data)"
| "load_months http_get read_csv ((year, month) # rest) all_data =
     (case fetch_month_data http_get read_csv year month of
        (out, Inl e) \<Rightarrow> (out, Inl e)
      | (out, Inr df_month) \<Rightarrow>
          (case load_months http_get read_csv rest
                  (if df_month \<noteq> [] then all_data @ [df_month] else all_data) of
             (out', res) \<Rightarrow> (out @ out', res)))"

definition years :: "int list" where
  "years = [2020, 2021, 2022, 2023, 2024, 2025]"

text \<open>
  \<^verbatim>\<open>load_earthquake_data\<close>: every month of every year, then \<^verbatim>\<open>pd.concat\<close>, which
  raises \<^verbatim>\<open>ValueError\<close> when there is nothing to concatenate (the CSV file written
  and the last print are left out).
\<close>

definition load_earthquake_data ::
  "(query \<Rightarrow> py_error + response) \<Rightarrow> (string \<Rightarrow> py_error + frame)
     \<Rightarrow> message list \<times> (py_error + frame)" where
  "load_earthquake_data http_get read_csv =
     (case load_months http_get read_csv (List.product years [1, 2, 3, 4, 5, 6, 7, 8, 9, 10, 11, 12]) [] of
        (out, Inl e) \<Rightarrow> (out, Inl e)
      | (out, Inr all_data) \<Rightarrow>
          if all_data = [] then (out, Inl ValueError) else (out, Inr (concat all_data)))"

text \<open>A string without whitespace at either end.\<close>

definition trimmed :: "string \<Rightarrow> bool" where
  "trimmed s \<longleftrightarrow> s = [] \<or> (\<not> is_space (hd s) \<and> \<not> is_space (last s))"

text \<open>Whether an expression matches at the start of a string.\<close>

definition starts_with :: "regex \<Rightarrow> string \<Rightarrow> bool" where
  "starts_with r s \<longleftrightarrow> ms r (s, Map.empty) \<noteq> []"

text \<open>The first element of a list, if there is one.\<close>

definition first_of :: "'a list \<Rightarrow> 'a option" where
  "first_of xs = (case xs of [] \<Rightarrow> None | x # _ \<Rightarrow> Some x)"

text \<open>The names of the groups of an expression.\<close>

fun group_names :: "regex \<Rightarrow> string set" where
  "group_names (Seq a b) = group_names a \<union> group_names b"
| "group_names (Opt a) = group_names a"
| "group_names (Grp n a) = insert n (group_names a)"
| "group_names _ = {}"

text \<open>An expression none of whose classes accepts the character \<open>c\<close>, and without anchor.\<close>

fun avoids :: "char \<Rightarrow> regex \<Rightarrow> bool" where
  "avoids c (Chr p) = (\<not> p c)"
| "avoids c (Greedy lo hi p) = (\<not> p c)"
| "avoids c (Lazy lo p) = (\<not> p c)"
| "avoids c (Seq a b) = (avoids c a \<and> avoids c b)"
| "avoids c (Opt a) = avoids c a"
| "avoids c (Grp n a) = avoids c a"
| "avoids c Eos = False"

text \<open>A record whose place text parses without a distance, a direction or a state.\<close>

definition lacks_field :: "row \<Rightarrow> bool" where
  "lacks_field r =
     (case col ''place'' AttributeError r of
        Inr (Str t) \<Rightarrow>
          (case parse_place t of
             Inr d \<Rightarrow> distance d = None \<or> direction d = None \<or> state d = None
           | Inl e \<Rightarrow> False)
      | _ \<Rightarrow> False)"


section \<open>Properties of stripping\<close>

lemma dropWhile_rev_no_lead:
  assumes "t \<noteq> []" "\<not> p (hd t)"
  shows "rev (dropWhile p (rev t)) \<noteq> [] \<and> hd (rev (dropWhile p (rev t))) = hd t
         \<and> \<not> p (last (rev (dropWhile p (rev t))))"
proof -
  obtain c cs where t: "t = c # cs" using assms(1) by (cases t) auto
  have c: "\<not> p c" using assms(2) t by simp
  have "dropWhile p (rev cs @ [c]) = dropWhile p (rev cs) @ [c]"
    by (induction "rev cs" arbitrary: cs) (use c in \<open>auto simp: dropWhile_append\<close>)
  hence eq: "rev (dropWhile p (rev t)) = c # rev (dropWhile p (rev cs))"
    by (simp add: t)
  have "dropWhile p (rev cs) \<noteq> [] \<Longrightarrow> \<not> p (hd (dropWhile p (rev cs)))"
    by (rule hd_dropWhile)
  thus ?thesis using eq c t
    by (cases "dropWhile p (rev cs) = []") (auto simp: last_rev)
qed

lemma trimmed_strip: "trimmed (strip s)"
proof (cases "dropWhile is_space s = []")
  case True
  have "strip s = []" unfolding strip_def True by simp
  then show ?thesis by (simp add: trimmed_def)
next
  case False
  hence h: "\<not> is_space (hd (dropWhile is_space s))" by (rule hd_dropWhile)
  from dropWhile_rev_no_lead[of "dropWhile is_space s" is_space, OF False h] h show ?thesis
    unfolding trimmed_def strip_def by metis
qed

lemma strip_trimmed: "trimmed s \<Longrightarrow> strip s = s"
proof (cases "s = []")
  case True
  then show ?thesis by (simp add: strip_def)
next
  case False
  assume "trimmed s"
  with False have h: "\<not> is_space (hd s)" and l: "\<not> is_space (last s)"
    by (auto simp: trimmed_def)
  have 1: "dropWhile is_space s = s" using False h by (cases s) auto
  have "rev s \<noteq> []" "\<not> is_space (hd (rev s))" using False l by (auto simp: hd_rev)
  hence 2: "dropWhile is_space (rev s) = rev s" by (cases "rev s") auto
  show ?thesis by (simp add: strip_def 1 2)
qed

lemma strip_idem: "strip (strip s) = strip s"
  by (rule strip_trimmed[OF trimmed_strip])


section \<open>Properties of the region index and of the state names\<close>

lemma fold_upd_apply:
  "fold (\<lambda>st m'. m'(st \<mapsto> r)) sts m s = (if s \<in> set sts then Some r else m s)"
  by (induction sts arbitrary: m) auto

lemma fold_regions_None:
  "fold (\<lambda>(region, states) m. fold (\<lambda>st m'. m'(st \<mapsto> region)) states m) rs m s = None
     \<longleftrightarrow> m s = None \<and> s \<notin> set (concat (map snd rs))"
  by (induction rs arbitrary: m) (auto simp: fold_upd_apply split: if_splits)

lemma state_to_region_None:
  "state_to_region s = None \<longleftrightarrow> s \<notin> set (concat (map snd us_regions))"
  unfolding state_to_region_def by (simp only: fold_regions_None) simp

lemma state_to_region_listed:
  "\<forall>(region, states) \<in> set us_regions. \<forall>s \<in> set states. state_to_region s = Some region"
  by code_simp

lemma region_names:
  "\<forall>(region, states) \<in> set us_regions. region \<in> {''Northeast'', ''Midwest'', ''South'', ''West''}"
  by code_simp

lemma state_mapping_values:
  "\<forall>(abbr, full) \<in> set state_mapping. strip full = full \<and> map_of state_mapping full = None"
  by code_simp

lemma expand_Str:
  "expand_state_name (Str s) =
     Inr (Str (case map_of state_mapping (strip s) of Some full \<Rightarrow> full | None \<Rightarrow> strip s))"
  by (simp add: expand_state_name_def Let_def)

lemma expand_full_name:
  assumes "(abbr, full) \<in> set state_mapping"
  shows "expand_state_name (Str full) = Inr (Str full)"
proof -
  from assms state_mapping_values have "strip full = full \<and> map_of state_mapping full = None"
    by fastforce
  thus ?thesis by (simp add: expand_Str)
qed

lemma expand_twice:
  assumes "expand_state_name (Str s) = Inr y"
  shows "expand_state_name y = Inr y"
proof (cases "map_of state_mapping (strip s)")
  case None
  hence y: "y = Str (strip s)" using assms by (simp add: expand_Str)
  show ?thesis unfolding y by (simp add: expand_Str strip_idem None)
next
  case (Some full)
  hence y: "y = Str full" using assms by (simp add: expand_Str)
  from Some have "(strip s, full) \<in> set state_mapping" by (rule map_of_SomeD)
  thus ?thesis unfolding y by (rule expand_full_name)
qed


section \<open>Properties of the frame operations\<close>

lemma then_do_Inr: "then_do x f = Inr z \<longleftrightarrow> (\<exists>y. x = Inr y \<and> f y = Inr z)"
  by (cases x) (auto simp: then_do_def)

lemma map_rows_member:
  "map_rows f df = Inr out \<Longrightarrow> r' \<in> set out \<Longrightarrow> \<exists>r \<in> set df. f r = Inr r'"
proof (induction df arbitrary: out)
  case Nil
  then show ?case by simp
next
  case (Cons a df)
  then show ?case by (auto split: sum.splits)
qed

lemma col_map_of: "col c dup r = Inr x \<Longrightarrow> map_of r c = Some x"
proof (induction r)
  case Nil
  then show ?case by (simp add: col_def)
next
  case (Cons a r)
  obtain k v where a: "a = (k, v)" by (cases a)
  show ?case
  proof (cases "k = c")
    case True
    with Cons.prems a show ?thesis
      by (auto simp: col_def split: list.splits)
  next
    case False
    with Cons a show ?thesis by (simp add: col_def)
  qed
qed

lemma col_append_new:
  assumes "col c dup (r @ [(c, v)]) = Inr x"
  shows "x = v"
proof -
  have "filter (\<lambda>(k, x). k = c) (r @ [(c, v)]) = filter (\<lambda>(k, x). k = c) r @ [(c, v)]"
    by simp
  with assms show ?thesis
    by (cases "filter (\<lambda>(k, x). k = c) r") (auto simp: col_def split: list.splits)
qed

lemma notna_simps [simp]: "notna NA = False" "notna (Str s) = True" "notna (Num x) = True"
  by (simp_all add: notna_def)

lemma complete_iff: "complete r \<longleftrightarrow> (\<forall>(c, v) \<in> set r. v \<noteq> NA)"
proof -
  have "notna v \<longleftrightarrow> v \<noteq> NA" for v by (cases v) simp_all
  thus ?thesis by (auto simp: complete_def list_all_iff)
qed

lemma complete_map_of: "complete r \<Longrightarrow> map_of r c = Some v \<Longrightarrow> v \<noteq> NA"
  by (auto simp: complete_iff dest: map_of_SomeD)

lemma complete_put_col: "complete r \<Longrightarrow> v \<noteq> NA \<Longrightarrow> complete (put_col c v r)"
  by (auto simp: complete_iff put_col_def split: if_splits)

lemma complete_rename: "complete r \<Longrightarrow> complete (rename_columns r)"
  by (auto simp: complete_iff rename_columns_def)

lemma complete_drop: "complete r \<Longrightarrow> complete (drop_cols cs r)"
  by (auto simp: complete_iff drop_cols_def)

lemma map_of_overwrite:
  "map_of (map (\<lambda>(k, x). if k = c then (k, v) else (k, x)) r) c' =
     (if c' = c then (if c \<in> fst ` set r then Some v else None) else map_of r c')"
proof (induction r)
  case Nil
  show ?case by simp
next
  case (Cons a r)
  obtain k x where a: "a = (k, x)" by (cases a)
  show ?case
  proof (cases "c' = c")
    case True
    with Cons show ?thesis unfolding a by (cases "k = c") simp_all
  next
    case False
    with Cons show ?thesis unfolding a by (cases "k = c") simp_all
  qed
qed

lemma map_of_put_col: "map_of (put_col c v r) c' = (if c' = c then Some v else map_of r c')"
proof (cases "c \<in> fst ` set r")
  case True
  thus ?thesis by (simp only: put_col_def if_True map_of_overwrite)
next
  case False
  hence n: "map_of r c = None" by (simp add: map_of_eq_None_iff)
  have "map_of (r @ [(c, v)]) c' = (if c' = c then Some v else map_of r c')"
    using n by (induction r) (auto split: if_splits)
  with False show ?thesis by (simp only: put_col_def if_False)
qed

lemma map_of_rename:
  assumes "rename_column c = c" "\<And>k. rename_column k = c \<Longrightarrow> k = c"
  shows "map_of (rename_columns r) c = map_of r c"
  unfolding rename_columns_def using assms by (induction r) auto

lemma map_of_drop: "c \<notin> set cs \<Longrightarrow> map_of (drop_cols cs r) c = map_of r c"
  unfolding drop_cols_def by (induction r) auto

lemma rename_fixed:
  "rename_column ''state'' = ''state''" "rename_column k = ''state'' \<Longrightarrow> k = ''state''"
  "rename_column ''country'' = ''country''" "rename_column k = ''country'' \<Longrightarrow> k = ''country''"
  "rename_column ''continent'' = ''continent''" "rename_column k = ''continent'' \<Longrightarrow> k = ''continent''"
  by (auto simp: rename_column_def split: if_splits)

lemma expand_notna: "expand_state_name st = Inr st' \<Longrightarrow> st \<noteq> NA \<Longrightarrow> st' \<noteq> NA"
  by (cases st) (auto simp: expand_state_name_def Let_def)

lemma complete_parsed:
  assumes "complete (r @ parsed_columns d)"
  shows "complete r \<and> distance d \<noteq> None \<and> direction d \<noteq> None \<and> nearest d \<noteq> None \<and> state d \<noteq> None"
  using assms by (auto simp: complete_iff parsed_columns_def cell_of_def split: option.splits)

lemma add_parsed_Inr:
  assumes "add_parsed r = Inr r2"
  shows "\<exists>txt d. col ''place'' AttributeError r = Inr (Str txt) \<and> parse_place txt = Inr d
           \<and> r2 = r @ parsed_columns d"
proof -
  from assms obtain x where x: "col ''place'' AttributeError r = Inr x"
    and rest: "(case x of Str txt \<Rightarrow> then_do (parse_place txt) (\<lambda>d. Inr (r @ parsed_columns d))
                | _ \<Rightarrow> Inl AttributeError) = Inr r2"
    unfolding add_parsed_def by (auto simp: then_do_Inr)
  from rest obtain t where t: "x = Str t" by (cases x) auto
  with rest obtain d where "parse_place t = Inr d" "r2 = r @ parsed_columns d"
    by (auto simp: then_do_Inr)
  with x t show ?thesis by blast
qed

lemma finish_row_complete:
  assumes "finish_row r = Inr r'" "complete r"
  shows "complete r'"
proof -
  from assms(1) obtain st st' r4 c k where
    st: "col ''state'' ValueError r = Inr st" and e: "expand_state_name st = Inr st'"
    and r4: "r4 = put_col ''state'' st' r"
    and r': "r' = drop_cols [''place''] (rename_columns (put_col ''continent'' (Str k) (put_col ''country'' (Str c) r4)))"
    unfolding finish_row_def expand_state_col_def add_country_continent_def
    by (auto simp: then_do_Inr)
  from st have "map_of r ''state'' = Some st" by (rule col_map_of)
  with assms(2) have "st \<noteq> NA" by (rule complete_map_of)
  with e have "st' \<noteq> NA" by (rule expand_notna)
  with assms(2) have "complete r4" unfolding r4 by (rule complete_put_col)
  thus ?thesis unfolding r'
    by (intro complete_drop complete_rename complete_put_col) simp_all
qed

text \<open>Where an emitted row comes from.\<close>

lemma emitted_row_origin:
  assumes "clean_and_transform_data df = Inr out" "r' \<in> set out"
  shows "\<exists>r \<in> set df. \<exists>txt d.
           complete r \<and> col ''place'' AttributeError r = Inr (Str txt) \<and> parse_place txt = Inr d
         \<and> complete (r @ parsed_columns d) \<and> finish_row (r @ parsed_columns d) = Inr r'
         \<and> map_of r' ''country'' = Some (Str ''United States'')"
proof -
  from assms(1) obtain df2 df4 df5 where
    p: "map_rows add_parsed (dropna df) = Inr df2"
    and e: "map_rows expand_state_col (dropna df2) = Inr df4"
    and c: "map_rows add_country_continent df4 = Inr df5"
    and out: "out = filter (\<lambda>r. map_of r ''country'' = Some (Str ''United States''))
                (filter (\<lambda>r. map_of r ''continent'' \<noteq> Some (Str ''Unknown''))
                  (map (drop_cols [''place'']) (map rename_columns df5)))"
    unfolding clean_and_transform_data_def by (auto simp: then_do_Inr Let_def split: if_splits)
  from assms(2) out obtain r5 where r5: "r5 \<in> set df5" "r' = drop_cols [''place''] (rename_columns r5)"
    and us: "map_of r' ''country'' = Some (Str ''United States'')"
    by auto
  from map_rows_member[OF c r5(1)] obtain r4 where r4: "r4 \<in> set df4" "add_country_continent r4 = Inr r5"
    by blast
  from map_rows_member[OF e r4(1)] obtain r3 where r3: "r3 \<in> set (dropna df2)" "expand_state_col r3 = Inr r4"
    by blast
  hence r3c: "complete r3" and r3m: "r3 \<in> set df2" by (auto simp: dropna_def)
  from map_rows_member[OF p r3m] obtain r1 where r1: "r1 \<in> set (dropna df)" "add_parsed r1 = Inr r3"
    by blast
  from add_parsed_Inr[OF r1(2)] obtain t d where
    pl: "col ''place'' AttributeError r1 = Inr (Str t)" "parse_place t = Inr d" "r3 = r1 @ parsed_columns d"
    by blast
  have f: "finish_row r3 = Inr r'"
    unfolding finish_row_def by (simp add: then_do_def r3(2) r4(2) r5(2))
  from r1(1) have "r1 \<in> set df" "complete r1" by (auto simp: dropna_def)
  with pl f r3c us show ?thesis by blast
qed

lemma gcc_cases:
  "get_country_continent st = Inr (c, k) \<Longrightarrow>
     (c = ''United States'' \<and> k = ''North America'') \<or> (c = ''Unknown'' \<and> k = ''Unknown'')"
  by (cases st) (auto simp: get_country_continent_def Let_def split: if_splits)

lemma finish_row_state:
  assumes "finish_row r = Inr r'" "map_of r' ''country'' = Some (Str ''United States'')"
  shows "\<exists>st st'. col ''state'' ValueError r = Inr st \<and> expand_state_name st = Inr st'
           \<and> map_of r' ''state'' = Some st'
           \<and> get_country_continent st' = Inr (''United States'', ''North America'')"
proof -
  from assms(1) obtain st st' r4 st4 c k where
    st: "col ''state'' ValueError r = Inr st" and e: "expand_state_name st = Inr st'"
    and r4: "r4 = put_col ''state'' st' r"
    and st4: "col ''state'' ValueError r4 = Inr st4"
    and g: "get_country_continent st4 = Inr (c, k)"
    and r': "r' = drop_cols [''place''] (rename_columns (put_col ''continent'' (Str k) (put_col ''country'' (Str c) r4)))"
    unfolding finish_row_def expand_state_col_def add_country_continent_def
    by (auto simp: then_do_Inr)
  have "map_of r4 ''state'' = Some st4" using st4 by (rule col_map_of)
  hence eq: "st4 = st'" by (simp add: r4 map_of_put_col)
  have s: "map_of r' ''state'' = Some st'"
    unfolding r' by (simp add: map_of_drop map_of_rename rename_fixed map_of_put_col r4)
  have "map_of r' ''country'' = Some (Str c)"
    unfolding r' by (simp add: map_of_drop map_of_rename rename_fixed map_of_put_col)
  with assms(2) have "c = ''United States''" by simp
  with gcc_cases[OF g] have "k = ''North America''" by auto
  with g eq \<open>c = ''United States''\<close> st e s show ?thesis by blast
qed

lemma col_parsed_state:
  assumes "col ''state'' e (r @ parsed_columns d) = Inr st"
  shows "st = cell_of (state d)"
proof -
  have "r @ parsed_columns d =
          (r @ [(''distance'', cell_of (distance d)), (''direction'', cell_of (direction d)),
                (''nearest'', cell_of (nearest d))]) @ [(''state'', cell_of (state d))]"
    by (simp add: parsed_columns_def)
  with assms show ?thesis using col_append_new by metis
qed

lemma put_col_keeps:
  assumes "(k, v) \<in> set r" "k \<noteq> c"
  shows "(k, v) \<in> set (put_col c x r)"
proof (cases "c \<in> fst ` set r")
  case True
  let ?F = "\<lambda>(k', x'). if k' = c then (k', x) else (k', x')"
  have e: "?F (k, v) = (k, v)" using assms(2) by simp
  have "(k, v) \<in> ?F ` set r" using imageI[OF assms(1), of ?F] unfolding e .
  hence "(k, v) \<in> set (map ?F r)" by simp
  with True show ?thesis by (simp only: put_col_def if_True)
next
  case False
  have "(k, v) \<in> set (r @ [(c, x)])" using assms(1) by simp
  with False show ?thesis by (simp only: put_col_def if_False)
qed

lemma rename_columns_member: "(k, v) \<in> set r \<Longrightarrow> (rename_column k, v) \<in> set (rename_columns r)"
  by (induction r) (auto simp: rename_columns_def)

lemma drop_cols_member: "(k, v) \<in> set r \<Longrightarrow> k \<notin> set cs \<Longrightarrow> (k, v) \<in> set (drop_cols cs r)"
  by (simp add: drop_cols_def)

lemma missing_cell_kept:
  assumes "(k, NA) \<in> set r3" "k = ''distance'' \<or> k = ''direction''"
  shows "\<not> complete (drop_cols [''place''] (rename_columns
            (put_col ''continent'' y3 (put_col ''country'' y2 (put_col ''state'' y1 r3)))))"
proof -
  from assms(2) have ne: "k \<noteq> ''state''" "k \<noteq> ''country''" "k \<noteq> ''continent''"
    and rn: "rename_column k \<notin> set [''place'']"
    by (auto simp: rename_column_def)
  from assms(1) ne(1) have "(k, NA) \<in> set (put_col ''state'' y1 r3)" by (rule put_col_keeps)
  from this ne(2) have "(k, NA) \<in> set (put_col ''country'' y2 (put_col ''state'' y1 r3))"
    by (rule put_col_keeps)
  from this ne(3)
  have "(k, NA) \<in> set (put_col ''continent'' y3 (put_col ''country'' y2 (put_col ''state'' y1 r3)))"
    by (rule put_col_keeps)
  hence "(rename_column k, NA) \<in> set (rename_columns
            (put_col ''continent'' y3 (put_col ''country'' y2 (put_col ''state'' y1 r3))))"
    by (rule rename_columns_member)
  from this rn
  have "(rename_column k, NA) \<in> set (drop_cols [''place''] (rename_columns
            (put_col ''continent'' y3 (put_col ''country'' y2 (put_col ''state'' y1 r3)))))"
    by (rule drop_cols_member)
  thus ?thesis unfolding complete_iff by blast
qed

text \<open>A missing cell among the parsed columns is still missing in the finished row.\<close>

lemma finish_row_keeps_missing:
  assumes "finish_row (r @ parsed_columns d) = Inr r'"
    and "distance d = None \<or> direction d = None \<or> state d = None"
  shows "\<not> complete r'"
proof -
  let ?r3 = "r @ parsed_columns d"
  from assms(1) obtain st st' c k where
    st: "col ''state'' ValueError ?r3 = Inr st" and e: "expand_state_name st = Inr st'"
    and r': "r' = drop_cols [''place''] (rename_columns (put_col ''continent'' (Str k)
                 (put_col ''country'' (Str c) (put_col ''state'' st' ?r3))))"
    unfolding finish_row_def expand_state_col_def add_country_continent_def
    by (auto simp: then_do_Inr)
  from assms(2) show ?thesis
  proof (elim disjE)
    assume "distance d = None"
    hence "(''distance'', NA) \<in> set ?r3" by (simp add: parsed_columns_def cell_of_def)
    thus ?thesis unfolding r' by (rule missing_cell_kept) simp
  next
    assume "direction d = None"
    hence "(''direction'', NA) \<in> set ?r3" by (simp add: parsed_columns_def cell_of_def)
    thus ?thesis unfolding r' by (rule missing_cell_kept) simp
  next
    assume "state d = None"
    with col_parsed_state[OF st] have "st = NA" by (simp add: cell_of_def)
    with e have "st' = NA" by (simp add: expand_state_name_def)
    hence "map_of r' ''state'' = Some NA"
      unfolding r' by (simp add: map_of_drop map_of_rename rename_fixed map_of_put_col)
    thus ?thesis using complete_map_of by blast
  qed
qed

lemma map_rows_filter:
  assumes "map_rows f xs = Inr ys" "\<And>x y. \<not> K x \<Longrightarrow> f x = Inr y \<Longrightarrow> \<not> P y"
  shows "\<exists>ys'. map_rows f (filter K xs) = Inr ys' \<and> filter P ys' = filter P ys"
  using assms(1)
proof (induction xs arbitrary: ys)
  case Nil
  then show ?case by simp
next
  case (Cons x xs)
  from Cons.prems obtain y ys0 where y: "f x = Inr y" and ys0: "map_rows f xs = Inr ys0"
    and ys: "ys = y # ys0"
    by (auto split: sum.splits)
  from Cons.IH[OF ys0] obtain ys1 where
    1: "map_rows f (filter K xs) = Inr ys1" "filter P ys1 = filter P ys0"
    by blast
  show ?case
  proof (cases "K x")
    case True
    with 1 y ys show ?thesis by simp
  next
    case False
    with assms(2) y have "\<not> P y" by blast
    with False 1 ys show ?thesis by simp
  qed
qed

lemma lacks_field_add_parsed:
  assumes "lacks_field r" "add_parsed r = Inr y"
  shows "\<not> complete y"
proof -
  from add_parsed_Inr[OF assms(2)] obtain t d where
    p: "col ''place'' AttributeError r = Inr (Str t)" "parse_place t = Inr d" "y = r @ parsed_columns d"
    by blast
  with assms(1) have "distance d = None \<or> direction d = None \<or> state d = None"
    by (simp add: lacks_field_def)
  moreover have "complete y \<Longrightarrow> distance d \<noteq> None \<and> direction d \<noteq> None \<and> state d \<noteq> None"
    unfolding p(3) using complete_parsed[of r d] by simp
  ultimately show ?thesis by auto
qed

text \<open>Records that lack a field can be taken out of the input of a successful run.\<close>

lemma clean_without:
  assumes run: "clean_and_transform_data df = Inr out"
    and K: "\<And>r. \<not> K r \<Longrightarrow> lacks_field r"
  shows "clean_and_transform_data (filter K df) = Inr out"
proof -
  from run obtain df2 df4 df5 where
    p: "map_rows add_parsed (dropna df) = Inr df2"
    and e: "map_rows expand_state_col (dropna df2) = Inr df4"
    and ne4: "df4 \<noteq> []"
    and c: "map_rows add_country_continent df4 = Inr df5"
    and out: "out = filter (\<lambda>r. map_of r ''country'' = Some (Str ''United States''))
                (filter (\<lambda>r. map_of r ''continent'' \<noteq> Some (Str ''Unknown''))
                  (map (drop_cols [''place'']) (map rename_columns df5)))"
    unfolding clean_and_transform_data_def by (auto simp: then_do_Inr Let_def split: if_splits)
  have d1: "dropna (filter K df) = filter K (dropna df)"
    unfolding dropna_def by (induction df) auto
  from map_rows_filter[OF p, of K complete] K lacks_field_add_parsed obtain ys' where
    p': "map_rows add_parsed (filter K (dropna df)) = Inr ys'" and f: "dropna ys' = dropna df2"
    unfolding dropna_def by blast
  have ne1: "filter K (dropna df) \<noteq> []"
  proof
    assume "filter K (dropna df) = []"
    with p' have "ys' = []" by simp
    with f have "dropna df2 = []" by (simp add: dropna_def)
    with e have "df4 = []" by simp
    with ne4 show False by simp
  qed
  show ?thesis
    unfolding clean_and_transform_data_def
    by (simp add: Let_def d1 p' f e c ne1 ne4 then_do_def out)
qed

lemma run_stages_without:
  assumes "run_stages isect counties clean_distance df = Inr out"
    and "\<And>r. \<not> K r \<Longrightarrow> lacks_field r"
  shows "run_stages isect counties clean_distance (filter K df) = Inr out"
proof -
  from assms(1) obtain df2 where a: "clean_and_transform_data df = Inr df2"
    and b: "then_do (add_county_data isect counties df2) (add_regions_and_finalize clean_distance) = Inr out"
    unfolding run_stages_def by (auto simp: then_do_Inr)
  from clean_without[OF a assms(2)] have "clean_and_transform_data (filter K df) = Inr df2" .
  with b show ?thesis unfolding run_stages_def by (simp add: then_do_def)
qed

lemma unlisted_seven:
  "\<forall>s \<in> set [''Ohio'', ''Iowa'', ''Michigan'', ''Delaware'', ''Rhode Island'', ''Vermont'', ''North Dakota''].
     s \<in> set (concat (map snd us_regions)) \<and> state_to_region s \<noteq> None
     \<and> strip s = s \<and> s \<notin> us_states \<and> s \<notin> us_territories"
  by code_simp

lemma enumerate_filter:
  "map snd (filter (\<lambda>(i, x). P x) (enumerate n xs)) = filter P xs"
  by (induction xs arbitrary: n) auto

lemma county_rows_cases:
  "county_rows isect counties r pt =
     (case filter (\<lambda>(i, name, geom). isect pt geom) (enumerate 0 counties) of
        [] \<Rightarrow> [r @ [(''index_right'', NA), (''county'', NA)]]
      | hits \<Rightarrow>
          map (\<lambda>(i, name, geom). r @ [(''index_right'', Num (of_nat i)), (''county'', Str name)]) hits)"
  by (simp add: county_rows_def)

lemma county_hits:
  "map snd (filter (\<lambda>(i, name, geom). isect pt geom) (enumerate 0 counties)) =
     filter (\<lambda>(name, geom). isect pt geom) counties"
proof -
  have "(\<lambda>(i, name, geom). isect pt geom) = (\<lambda>(i, x). (\<lambda>(name, geom). isect pt geom) x)"
    by (auto simp: fun_eq_iff)
  thus ?thesis by (simp only: enumerate_filter)
qed


section \<open>Properties of the matcher\<close>

lemma ms_Seq_member:
  "x' \<in> set (ms (Seq a b) x) \<longleftrightarrow> (\<exists>y \<in> set (ms a x). x' \<in> set (ms b y))"
  by auto

lemma ms_suffix: "(s', g') \<in> set (ms r (s, g)) \<Longrightarrow> suffix s' s"
proof (induction r arbitrary: s g s' g')
  case (Chr p)
  then show ?case by (cases s) (auto split: if_splits simp: suffix_Cons)
next
  case (Greedy lo hi p)
  then show ?case by (auto simp: suffix_drop)
next
  case (Lazy lo p)
  then show ?case by (auto simp: suffix_drop)
next
  case (Seq a b)
  then obtain s1 g1 where "(s1, g1) \<in> set (ms a (s, g))" "(s', g') \<in> set (ms b (s1, g1))"
    by auto
  with Seq.IH show ?case using suffix_order.trans by blast
next
  case (Opt a)
  then show ?case by auto
next
  case (Grp n a)
  then show ?case by auto
next
  case Eos
  then show ?case by (auto split: if_splits)
qed

lemma ms_frame:
  "(s', g') \<in> set (ms r (s, g)) \<Longrightarrow> n \<notin> group_names r \<Longrightarrow> g' n = g n"
proof (induction r arbitrary: s g s' g')
  case (Chr p)
  then show ?case by (cases s) (auto split: if_splits)
next
  case (Seq a b)
  then obtain s1 g1 where 1: "(s1, g1) \<in> set (ms a (s, g))" and 2: "(s', g') \<in> set (ms b (s1, g1))"
    by auto
  from Seq.prems(2) have "n \<notin> group_names a" "n \<notin> group_names b" by auto
  with Seq.IH 1 2 show ?case by metis
next
  case (Grp m a)
  then show ?case by auto
next
  case Eos
  then show ?case by (auto split: if_splits)
qed auto

lemma ms_keeps:
  "(s', g') \<in> set (ms r (s, g)) \<Longrightarrow> g n \<noteq> None \<Longrightarrow> g' n \<noteq> None"
proof (induction r arbitrary: s g s' g')
  case (Chr p)
  then show ?case by (cases s) (auto split: if_splits)
next
  case (Seq a b)
  then obtain s1 g1 where 1: "(s1, g1) \<in> set (ms a (s, g))" and 2: "(s', g') \<in> set (ms b (s1, g1))"
    by auto
  from Seq.IH(1)[OF 1 Seq.prems(2)] have "g1 n \<noteq> None" .
  from Seq.IH(2)[OF 2 this] show ?case .
next
  case (Grp m a)
  then show ?case by (auto split: if_splits)
next
  case Eos
  then show ?case by (auto split: if_splits)
qed auto

lemma span_barrier: "\<not> p c \<Longrightarrow> class_run p (a @ c # b) = class_run p a"
  by (induction a) (auto simp: class_run_def)

lemma span_le: "class_run p s \<le> length s"
  by (simp add: class_run_def length_takeWhile_le)

lemma upto_max_le: "upto_max hi n \<le> n"
  by (cases hi) (auto simp: upto_max_def)

lemma ms_barrier:
  "avoids c r \<Longrightarrow>
     ms r (a @ c # b, g) = map (\<lambda>(s', g'). (s' @ c # b, g')) (ms r (a, g))"
proof (induction r arbitrary: a g)
  case (Chr p)
  then show ?case by (cases a) auto
next
  case (Greedy lo hi p)
  hence sp: "class_run p (a @ c # b) = class_run p a" by (simp add: span_barrier)
  have "k \<in> set (rev [lo ..< Suc (upto_max hi (class_run p a))]) \<Longrightarrow> drop k (a @ c # b) = drop k a @ c # b" for k
    using upto_max_le[of hi "class_run p a"] span_le[of p a] by auto
  thus ?case by (simp add: sp)
next
  case (Lazy lo p)
  hence sp: "class_run p (a @ c # b) = class_run p a" by (simp add: span_barrier)
  have "k \<in> set [lo ..< Suc (class_run p a)] \<Longrightarrow> drop k (a @ c # b) = drop k a @ c # b" for k
    using span_le[of p a] by auto
  thus ?case by (simp add: sp)
next
  case (Seq r1 r2)
  hence 1: "\<And>a g. ms r1 (a @ c # b, g) = map (\<lambda>(s', g'). (s' @ c # b, g')) (ms r1 (a, g))"
    and 2: "\<And>a g. ms r2 (a @ c # b, g) = map (\<lambda>(s', g'). (s' @ c # b, g')) (ms r2 (a, g))"
    by auto
  have "ms (Seq r1 r2) (a @ c # b, g) =
          concat (map (\<lambda>x. map (\<lambda>(s', g'). (s' @ c # b, g')) (ms r2 x)) (ms r1 (a, g)))"
    by (simp add: 1 comp_def case_prod_beta 2)
  also have "\<dots> = map (\<lambda>(s', g'). (s' @ c # b, g')) (ms (Seq r1 r2) (a, g))"
    by (simp add: map_concat comp_def)
  finally show ?case .
next
  case (Opt r)
  then show ?case by simp
next
  case (Grp n r)
  hence 1: "ms r (a @ c # b, g) = map (\<lambda>(s', g'). (s' @ c # b, g')) (ms r (a, g))" by simp
  show ?case by (simp add: 1 comp_def case_prod_beta)
next
  case Eos
  then show ?case by simp
qed

lemma first_of_simps [simp]: "first_of [] = None" "first_of (x # xs) = Some x"
  by (simp_all add: first_of_def)

lemma first_of_append: "first_of (xs @ ys) = (case first_of xs of Some x \<Rightarrow> Some x | None \<Rightarrow> first_of ys)"
  by (cases xs) auto

lemma first_of_concat_map:
  "first_of (concat (map f ys)) = Some r \<Longrightarrow> \<exists>y \<in> set ys. first_of (f y) = Some r"
  by (induction ys) (auto simp: first_of_append split: option.splits)

lemma first_of_member: "first_of xs = Some x \<Longrightarrow> x \<in> set xs"
  by (cases xs) auto

lemma concat_map_empty: "(\<And>x. x \<in> set xs \<Longrightarrow> f x = []) \<Longrightarrow> concat (map f xs) = []"
  by (induction xs) auto

lemma re_match_first: "re_match r s = map_option snd (first_of (ms r (s, Map.empty)))"
  by (auto simp: re_match_def first_of_def split: list.splits)


section \<open>The matches of the place pattern\<close>

lemma span_all: "class_run p z = length z \<longleftrightarrow> list_all p z"
  by (induction z) (auto simp: class_run_def)

lemma drop_span: "drop (class_run p z) z = dropWhile p z"
  unfolding class_run_def by (rule dropWhile_eq_drop[symmetric])

lemma take_span: "take (class_run p z) z = takeWhile p z"
  unfolding class_run_def by (rule takeWhile_eq_take[symmetric])

lemma ms_Grp_Greedy:
  "ms (Grp n (Greedy lo hi p)) (z, g) =
     map (\<lambda>k. (drop k z, g(n \<mapsto> take k z))) (rev [lo ..< Suc (upto_max hi (class_run p z))])"
proof -
  have "k \<in> set (rev [lo ..< Suc (upto_max hi (class_run p z))]) \<Longrightarrow> length z - length (drop k z) = k" for k
    using upto_max_le[of hi "class_run p z"] span_le[of p z] by auto
  thus ?thesis by (simp add: comp_def)
qed

lemma ms_Grp_Lazy:
  "ms (Grp n (Lazy lo p)) (z, g) =
     map (\<lambda>k. (drop k z, g(n \<mapsto> take k z))) [lo ..< Suc (class_run p z)]"
proof -
  have "k \<in> set [lo ..< Suc (class_run p z)] \<Longrightarrow> length z - length (drop k z) = k" for k
    using span_le[of p z] by auto
  thus ?thesis by (simp add: comp_def)
qed

text \<open>A string that does not end in whitespace; so are its suffixes.\<close>

lemma no_trail_drop:
  assumes "z = [] \<or> \<not> is_space (last z)"
  shows "drop k z = [] \<or> \<not> is_space (last (drop k z))"
  using assms by (cases "k < length z") auto

lemma no_trail_suffix:
  assumes "z = [] \<or> \<not> is_space (last z)" "suffix z' z"
  shows "z' = [] \<or> \<not> is_space (last z')"
  using assms by (auto simp: suffix_def)

lemma ms_Eos_no_trail:
  assumes "z = [] \<or> \<not> is_space (last z)"
  shows "ms Eos (z, G) = (if z = [] then [([], G)] else [])"
proof -
  have "is_space (CHR 0x0A)" by (simp add: is_space_def)
  with assms have "z \<noteq> [CHR 0x0A]" by auto
  thus ?thesis by simp
qed

text \<open>\<^verbatim>\<open>(?P<state>[A-Za-z ]+)$\<close>\<close>

lemma ms_state_Eos:
  assumes nt: "z = [] \<or> \<not> is_space (last z)"
  shows "ms (Seq (Grp ''state'' (Greedy 1 None is_state_char)) Eos) (z, g) =
           (if z \<noteq> [] \<and> list_all is_state_char z then [([], g(''state'' \<mapsto> z))] else [])"
proof -
  let ?sp = "class_run is_state_char z"
  let ?f = "\<lambda>k. ms Eos (drop k z, g(''state'' \<mapsto> take k z))"
  have eos: "?f k = (if length z \<le> k then [([], g(''state'' \<mapsto> take k z))] else [])" for k
    using ms_Eos_no_trail[OF no_trail_drop[OF nt, of k]] by simp
  have all: "ms (Seq (Grp ''state'' (Greedy 1 None is_state_char)) Eos) (z, g) =
               concat (map ?f (rev [1 ..< Suc ?sp]))"
    by (simp only: ms.simps(4) ms_Grp_Greedy upto_max_def option.case map_map comp_def)
  define f where "f = (\<lambda>k. if length z \<le> k then [([]::string, g(''state'' \<mapsto> take k z))] else [])"
  have all': "ms (Seq (Grp ''state'' (Greedy 1 None is_state_char)) Eos) (z, g) =
               concat (map f (rev [1 ..< Suc ?sp]))"
    unfolding all f_def using eos by presburger
  show ?thesis
  proof (cases "z \<noteq> [] \<and> list_all is_state_char z")
    case True
    hence sp: "?sp = length z" and pos: "1 \<le> length z" by (auto simp: span_all Suc_le_eq)
    have r: "rev [1 ..< Suc (length z)] = length z # rev [1 ..< length z]" using pos by simp
    have "concat (map f (rev [1 ..< length z])) = []"
      by (rule concat_map_empty) (simp add: f_def)
    moreover have "f (length z) = [([], g(''state'' \<mapsto> z))]" by (simp add: f_def)
    ultimately show ?thesis using True by (simp only: all' sp r list.map concat.simps) simp
  next
    case False
    have "concat (map f (rev [1 ..< Suc ?sp])) = []"
    proof (rule concat_map_empty)
      fix k assume k: "k \<in> set (rev [1 ..< Suc ?sp])"
      have "?sp < length z"
      proof (cases "z = []")
        case True
        with k show ?thesis by (simp add: class_run_def)
      next
        case nonempty: False
        with False have "\<not> list_all is_state_char z" by simp
        hence "?sp \<noteq> length z" by (simp add: span_all)
        with span_le[of is_state_char z] show ?thesis by simp
      qed
      with k show "f k = []" by (auto simp: f_def)
    qed
    with False show ?thesis by (simp only: all' if_False)
  qed
qed

text \<open>\<^verbatim>\<open>\s*(?P<state>[A-Za-z ]+)$\<close>\<close>

lemma ms_ws_state_Eos:
  assumes nt: "w = [] \<or> \<not> is_space (last w)"
  shows "first_of (ms (Seq ws (Seq (Grp ''state'' (Greedy 1 None is_state_char)) Eos)) (w, g)) =
           (if dropWhile is_space w \<noteq> [] \<and> list_all is_state_char (dropWhile is_space w)
            then Some ([], g(''state'' \<mapsto> dropWhile is_space w)) else None)"
proof -
  let ?sp = "class_run is_space w"
  let ?w' = "dropWhile is_space w"
  define h where "h = (\<lambda>z. if z \<noteq> [] \<and> list_all is_state_char z
                            then [([]::string, g(''state'' \<mapsto> z))] else [])"
  have step: "ms (Seq (Grp ''state'' (Greedy 1 None is_state_char)) Eos) (drop k w, g) = h (drop k w)" for k
    unfolding h_def by (rule ms_state_Eos[OF no_trail_drop[OF nt]])
  have all: "ms (Seq ws (Seq (Grp ''state'' (Greedy 1 None is_state_char)) Eos)) (w, g) =
               concat (map (\<lambda>k. h (drop k w)) (rev [0 ..< Suc ?sp]))"
    unfolding ws_def
    by (simp only: ms.simps(2) ms.simps(4)[of "Greedy 0 None is_space"] upto_max_def option.case
          map_map comp_def step)
  have r: "rev [0 ..< Suc ?sp] = ?sp # rev [0 ..< ?sp]" by simp
  have d: "drop ?sp w = ?w'" by (rule drop_span)
  show ?thesis
  proof (cases "?w' \<noteq> [] \<and> list_all is_state_char ?w'")
    case True
    hence "h ?w' = [([], g(''state'' \<mapsto> ?w'))]" by (simp add: h_def)
    with True show ?thesis by (simp only: all r list.map concat.simps d) simp
  next
    case False
    have "concat (map (\<lambda>k. h (drop k w)) (rev [0 ..< Suc ?sp])) = []"
    proof (rule concat_map_empty)
      fix k assume "k \<in> set (rev [0 ..< Suc ?sp])"
      hence k: "k \<le> ?sp" by auto
      have suf: "suffix ?w' (drop k w)"
      proof -
        have "drop k w = take (?sp - k) (drop k w) @ drop (?sp - k) (drop k w)"
          by (rule append_take_drop_id[symmetric])
        also have "drop (?sp - k) (drop k w) = ?w'" using k by (simp add: d)
        finally show ?thesis by (metis suffixI)
      qed
      show "h (drop k w) = []"
      proof (rule ccontr)
        assume "h (drop k w) \<noteq> []"
        hence ne: "drop k w \<noteq> []" and al: "list_all is_state_char (drop k w)"
          by (auto simp: h_def split: if_splits)
        from al suf have "list_all is_state_char ?w'" by (auto simp: suffix_def)
        with False have e: "?w' = []" by simp
        hence "\<forall>x \<in> set w. is_space x" by (simp add: dropWhile_eq_Nil_conv)
        moreover from ne have "w \<noteq> []" by auto
        ultimately have "is_space (last w)" by simp
        with nt \<open>w \<noteq> []\<close> show False by simp
      qed
    qed
    with False show ?thesis by (simp only: all) simp
  qed
qed

lemma concat_map_concat_map:
  "concat (map f (concat (map h xs))) = concat (map (\<lambda>x. concat (map f (h x))) xs)"
  by (induction xs) auto

lemma ms_Seq_assoc: "ms (Seq (Seq a b) c) x = ms (Seq a (Seq b c)) x"
proof -
  have e: "ms (Seq b c) = (\<lambda>y. concat (map (ms c) (ms b y)))" by (rule ext) simp
  show ?thesis by (simp add: concat_map_concat_map e)
qed

text \<open>\<^verbatim>\<open>(?:,\s*(?P<state>[A-Za-z ]+))?$\<close>\<close>

lemma ms_opt_state_Eos:
  assumes nt: "v = [] \<or> \<not> is_space (last v)"
  shows "ms (Seq (Opt state_part) Eos) (v, g) =
           (case v of
              [] \<Rightarrow> [([], g)]
            | c # w \<Rightarrow>
                if c = CHR '','' then ms (Seq ws (Seq (Grp ''state'' (Greedy 1 None is_state_char)) Eos)) (w, g)
                else [])"
proof (cases v)
  case Nil
  then show ?thesis by (simp add: state_part_def)
next
  case (Cons c w)
  have eos: "ms Eos (v, g) = []" using ms_Eos_no_trail[OF nt] Cons by simp
  have split: "ms (Seq (Opt state_part) Eos) (v, g) = ms (Seq state_part Eos) (v, g) @ ms Eos (v, g)"
    by simp
  show ?thesis
  proof (cases "c = CHR '',''")
    case True
    have "ms (Seq state_part Eos) (v, g) =
            ms (Seq (Seq ws (Grp ''state'' (Greedy 1 None is_state_char))) Eos) (w, g)"
      unfolding state_part_def Cons True by (simp add: is_comma_def)
    hence "ms (Seq state_part Eos) (v, g) =
            ms (Seq ws (Seq (Grp ''state'' (Greedy 1 None is_state_char)) Eos)) (w, g)"
      by (simp only: ms_Seq_assoc)
    hence "ms (Seq (Opt state_part) Eos) (v, g) =
            ms (Seq ws (Seq (Grp ''state'' (Greedy 1 None is_state_char)) Eos)) (w, g)"
      by (simp only: split eos append_Nil2)
    thus ?thesis by (simp add: Cons True del: ms.simps)
  next
    case False
    hence "ms (Seq state_part Eos) (v, g) = []"
      unfolding state_part_def Cons by (simp add: is_comma_def)
    hence "ms (Seq (Opt state_part) Eos) (v, g) = []"
      by (simp only: split eos append_Nil2)
    thus ?thesis using False by (simp add: Cons del: ms.simps)
  qed
qed

text \<open>\<^verbatim>\<open>(?P<nearest>[^,]+?)(?:,\s*(?P<state>[A-Za-z ]+))?$\<close>\<close>

lemma ms_nearest_part:
  assumes nt: "t = [] \<or> \<not> is_space (last t)"
  shows "ms nearest_part (t, g) =
           (if takeWhile not_comma t = [] then []
            else ms (Seq (Opt state_part) Eos) (dropWhile not_comma t, g(''nearest'' \<mapsto> takeWhile not_comma t)))"
proof -
  let ?n = "class_run not_comma t"
  let ?f = "\<lambda>k. ms (Seq (Opt state_part) Eos) (drop k t, g(''nearest'' \<mapsto> take k t))"
  have all: "ms nearest_part (t, g) = concat (map ?f [1 ..< Suc ?n])"
    unfolding nearest_part_def
    by (simp only: ms.simps(4)[of "Grp ''nearest'' (Lazy 1 not_comma)"] ms_Grp_Lazy map_map comp_def)
  have early: "?f k = []" if k: "k \<in> set [1 ..< ?n]" for k
  proof -
    from k have lt: "k < ?n" by simp
    hence lt': "k < length t" using span_le[of not_comma t] by simp
    from lt have "takeWhile not_comma t ! k \<in> set (takeWhile not_comma t)"
      unfolding class_run_def by (rule nth_mem)
    hence "not_comma (takeWhile not_comma t ! k)" using set_takeWhileD by fastforce
    moreover have "takeWhile not_comma t ! k = t ! k"
      using lt unfolding class_run_def by (rule takeWhile_nth)
    ultimately have nc: "t ! k \<noteq> CHR '',''" by (simp add: not_comma_def)
    have d: "drop k t = t ! k # drop (Suc k) t" using lt' by (simp add: Cons_nth_drop_Suc)
    from ms_opt_state_Eos[OF no_trail_drop[OF nt, of k]] nc show ?thesis
      by (simp add: d)
  qed
  show ?thesis
  proof (cases "takeWhile not_comma t = []")
    case True
    hence "?n = 0" by (simp add: class_run_def)
    with True show ?thesis by (simp add: all)
  next
    case False
    hence pos: "1 \<le> ?n" by (simp add: class_run_def Suc_le_eq)
    hence r: "[1 ..< Suc ?n] = [1 ..< ?n] @ [?n]" by simp
    have "concat (map ?f [1 ..< ?n]) = []" by (rule concat_map_empty) (rule early)
    hence "ms nearest_part (t, g) = ?f ?n"
      by (simp only: all r map_append concat_append) simp
    with False show ?thesis by (simp only: drop_span take_span if_False)
  qed
qed

lemma first_nearest_part:
  assumes nt: "t = [] \<or> \<not> is_space (last t)"
  shows "first_of (ms nearest_part (t, g)) =
           (if takeWhile not_comma t = [] then None
            else case dropWhile not_comma t of
                   [] \<Rightarrow> Some ([], g(''nearest'' \<mapsto> takeWhile not_comma t))
                 | c # w \<Rightarrow>
                     if dropWhile is_space w \<noteq> [] \<and> list_all is_state_char (dropWhile is_space w)
                     then Some ([], g(''nearest'' \<mapsto> takeWhile not_comma t,
                                      ''state'' \<mapsto> dropWhile is_space w))
                     else None)"
proof (cases "takeWhile not_comma t = []")
  case True
  then show ?thesis by (simp add: ms_nearest_part[OF nt] del: ms.simps)
next
  case False
  let ?v = "dropWhile not_comma t"
  let ?G = "g(''nearest'' \<mapsto> takeWhile not_comma t)"
  have ntv: "?v = [] \<or> \<not> is_space (last ?v)"
    using no_trail_drop[OF nt, of "class_run not_comma t"] by (simp only: drop_span)
  from False have m: "ms nearest_part (t, g) = ms (Seq (Opt state_part) Eos) (?v, ?G)"
    by (simp only: ms_nearest_part[OF nt] if_False)
  show ?thesis
  proof (cases ?v)
    case Nil
    have "ms (Seq (Opt state_part) Eos) (?v, ?G) = [([], ?G)]"
      using ms_opt_state_Eos[OF ntv, of ?G] by (simp add: Nil del: ms.simps)
    thus ?thesis using False by (simp add: m Nil del: ms.simps)
  next
    case (Cons c w)
    hence "?v \<noteq> []" by simp
    hence "\<not> not_comma (hd ?v)" by (rule hd_dropWhile)
    with Cons have c: "c = CHR '',''" by (simp add: not_comma_def)
    have ntw: "w = [] \<or> \<not> is_space (last w)" using ntv Cons by (auto split: if_splits)
    have "ms (Seq (Opt state_part) Eos) (?v, ?G) =
            ms (Seq ws (Seq (Grp ''state'' (Greedy 1 None is_state_char)) Eos)) (w, ?G)"
      using ms_opt_state_Eos[OF ntv, of ?G] by (simp add: Cons c del: ms.simps)
    thus ?thesis using False ms_ws_state_Eos[OF ntw, of ?G]
      by (simp add: m Cons del: ms.simps)
  qed
qed


section \<open>The result of the place parser\<close>

lemma place_pattern_sets_nearest:
  assumes "(s', g') \<in> set (ms place_pattern (s, g))"
  shows "g' ''nearest'' \<noteq> None"
proof -
  from assms obtain y1 y2 where "y2 \<in> set (ms (Opt direction_part) y1)"
    and np: "(s', g') \<in> set (ms nearest_part y2)"
    unfolding place_pattern_def by (auto simp only: ms_Seq_member)
  from np obtain y3 where y3: "y3 \<in> set (ms (Grp ''nearest'' (Lazy 1 not_comma)) y2)"
    and rest: "(s', g') \<in> set (ms (Seq (Opt state_part) Eos) y3)"
    unfolding nearest_part_def by (auto simp only: ms_Seq_member)
  obtain s2 g2 where y2: "y2 = (s2, g2)" by (cases y2)
  obtain s3 g3 where y3': "y3 = (s3, g3)" by (cases y3)
  from y3 have "g3 ''nearest'' \<noteq> None" unfolding y2 y3' by auto
  with rest show ?thesis unfolding y3' by (rule ms_keeps)
qed

lemma parse_place_cases:
  "(re_match place_pattern (strip txt) = None
      \<and> parse_place txt = Inr \<lparr>distance = None, direction = None, nearest = Some txt, state = None\<rparr>)
   \<or> (\<exists>rest m n. first_of (ms place_pattern (strip txt, Map.empty)) = Some (rest, m)
         \<and> m ''nearest'' = Some n
         \<and> parse_place txt = Inr \<lparr>distance = m ''distance'', direction = m ''direction'',
                                   nearest = Some (strip n), state = m ''state''\<rparr>)"
proof (cases "first_of (ms place_pattern (strip txt, Map.empty))")
  case None
  hence "re_match place_pattern (strip txt) = None" by (simp add: re_match_first)
  thus ?thesis by (simp add: parse_place_def)
next
  case (Some x)
  obtain rest m where x: "x = (rest, m)" by (cases x)
  from Some x have "(rest, m) \<in> set (ms place_pattern (strip txt, Map.empty))"
    by (simp add: first_of_member)
  hence "m ''nearest'' \<noteq> None" by (rule place_pattern_sets_nearest)
  then obtain n where n: "m ''nearest'' = Some n" by blast
  from Some x have "re_match place_pattern (strip txt) = Some m" by (simp add: re_match_first)
  hence "parse_place txt = Inr \<lparr>distance = m ''distance'', direction = m ''direction'',
                                   nearest = Some (strip n), state = m ''state''\<rparr>"
    by (simp add: parse_place_def n)
  with Some x n show ?thesis by blast
qed

lemma trimmed_no_trail: "trimmed s \<Longrightarrow> s = [] \<or> \<not> is_space (last s)"
  by (auto simp: trimmed_def)

text \<open>The first match of the whole pattern is the first match of its last part, after
  one of the ways to match the two optional prefixes.\<close>

lemma first_place_pattern:
  assumes "first_of (ms place_pattern (s, Map.empty)) = Some x" "s = [] \<or> \<not> is_space (last s)"
  shows "\<exists>t g0. first_of (ms nearest_part (t, g0)) = Some x \<and> suffix t s
           \<and> (t = [] \<or> \<not> is_space (last t)) \<and> g0 ''state'' = None \<and> g0 ''nearest'' = None"
proof -
  have e1: "ms place_pattern (s, Map.empty) =
              concat (map (ms (Seq (Opt direction_part) nearest_part)) (ms (Opt distance_part) (s, Map.empty)))"
    unfolding place_pattern_def by (rule ms.simps(4))
  from first_of_concat_map[OF assms(1)[unfolded e1]]
  obtain y1 where y1: "y1 \<in> set (ms (Opt distance_part) (s, Map.empty))"
    and f1: "first_of (ms (Seq (Opt direction_part) nearest_part) y1) = Some x"
    by blast
  have e2: "ms (Seq (Opt direction_part) nearest_part) y1 =
              concat (map (ms nearest_part) (ms (Opt direction_part) y1))"
    by (rule ms.simps(4))
  from first_of_concat_map[OF f1[unfolded e2]]
  obtain y2 where y2: "y2 \<in> set (ms (Opt direction_part) y1)"
    and f2: "first_of (ms nearest_part y2) = Some x"
    by blast
  obtain s1 g1 where p1: "y1 = (s1, g1)" by (cases y1)
  obtain t g0 where p2: "y2 = (t, g0)" by (cases y2)
  have n1: "''state'' \<notin> group_names (Opt distance_part)" "''nearest'' \<notin> group_names (Opt distance_part)"
    by (simp_all add: distance_part_def ws_def)
  have n2: "''state'' \<notin> group_names (Opt direction_part)" "''nearest'' \<notin> group_names (Opt direction_part)"
    by (simp_all add: direction_part_def ws_def)
  note m1 = y1[unfolded p1]
  note m2 = y2[unfolded p1 p2]
  have a: "suffix s1 s" "g1 ''state'' = None" "g1 ''nearest'' = None"
    using ms_suffix[OF m1] ms_frame[OF m1 n1(1)] ms_frame[OF m1 n1(2)] by simp_all
  have b: "suffix t s1" "g0 ''state'' = None" "g0 ''nearest'' = None"
    using ms_suffix[OF m2] ms_frame[OF m2 n2(1)] ms_frame[OF m2 n2(2)] a by simp_all
  from b(1) a(1) have suf: "suffix t s" by (rule suffix_order.trans)
  from no_trail_suffix[OF assms(2) suf] f2[unfolded p2] suf b show ?thesis by blast
qed

lemma parse_place_state_shape:
  assumes "parse_place txt = Inr d" "nearest d = Some n" "state d = Some s"
  shows "(\<exists>u. n = strip u \<and> list_all not_comma u)
       \<and> s \<noteq> [] \<and> list_all is_state_char s \<and> \<not> is_space (hd s) \<and> \<not> is_space (last s)"
proof -
  from parse_place_cases[of "txt"] assms obtain rest m n0 where
    f: "first_of (ms place_pattern (strip txt, Map.empty)) = Some (rest, m)"
    and m: "m ''nearest'' = Some n0" "n = strip n0" "m ''state'' = Some s"
    by auto
  have nt0: "strip txt = [] \<or> \<not> is_space (last (strip txt))"
    by (rule trimmed_no_trail[OF trimmed_strip])
  from first_place_pattern[OF f nt0] obtain t g0 where
    ft: "first_of (ms nearest_part (t, g0)) = Some (rest, m)" and nt: "t = [] \<or> \<not> is_space (last t)"
    and g0: "g0 ''state'' = None"
    by blast
  let ?u = "takeWhile not_comma t"
  let ?v = "dropWhile not_comma t"
  from ft first_nearest_part[OF nt, of g0] have une: "?u \<noteq> []" by (auto split: if_splits)
  show ?thesis
  proof (cases ?v)
    case Nil
    with ft first_nearest_part[OF nt, of g0] une have "m = g0(''nearest'' \<mapsto> ?u)" by simp
    with g0 m(3) show ?thesis by simp
  next
    case (Cons c w)
    let ?w' = "dropWhile is_space w"
    from Cons ft first_nearest_part[OF nt, of g0] une
    have ok: "?w' \<noteq> []" "list_all is_state_char ?w'"
      and mm: "m = g0(''nearest'' \<mapsto> ?u, ''state'' \<mapsto> ?w')"
      by (auto split: if_splits)
    from mm m have s: "s = ?w'" and n0: "n0 = ?u" by auto
    have "list_all not_comma ?u" by (auto simp: list_all_iff dest: set_takeWhileD)
    hence 1: "\<exists>u. n = strip u \<and> list_all not_comma u" using m(2) n0 by blast
    from ok(1) have 2: "\<not> is_space (hd ?w')" by (rule hd_dropWhile)
    have "suffix ?w' w" by (rule suffix_dropWhile)
    moreover have "suffix w ?v" unfolding Cons by (simp add: suffix_Cons)
    moreover have "suffix ?v t" by (rule suffix_dropWhile)
    ultimately have "suffix ?w' t" using suffix_order.trans by blast
    from no_trail_suffix[OF nt this] ok(1) have 3: "\<not> is_space (last ?w')" by blast
    from 1 2 3 ok show ?thesis unfolding s by blast
  qed
qed

lemma avoids_comma:
  "avoids CHR '','' distance_part" "avoids CHR '','' direction_part"
  by (simp_all add: distance_part_def direction_part_def ws_def is_digit_def is_space_def
        is_compass_def lit_ci_def)

lemma no_prefix_matches:
  assumes "\<not> starts_with distance_part t" "\<not> starts_with direction_part t"
  shows "ms place_pattern (t, Map.empty) = ms nearest_part (t, Map.empty)"
proof -
  from assms have "ms distance_part (t, Map.empty) = []" "ms direction_part (t, Map.empty) = []"
    by (simp_all add: starts_with_def)
  thus ?thesis unfolding place_pattern_def by (simp del: ms.simps add: ms.simps(4,5))
qed

lemma starts_with_barrier:
  assumes "avoids c r" "\<not> starts_with r a"
  shows "\<not> starts_with r (a @ c # b)"
  using assms by (simp add: starts_with_def ms_barrier del: ms.simps)

lemma set_strip: "set (strip s) \<subseteq> set s"
proof
  fix x assume "x \<in> set (strip s)"
  hence "x \<in> set (dropWhile is_space (rev (dropWhile is_space s)))" by (simp add: strip_def)
  hence "x \<in> set (rev (dropWhile is_space s))" by (rule set_dropWhileD)
  hence "x \<in> set (dropWhile is_space s)" by simp
  thus "x \<in> set s" by (rule set_dropWhileD)
qed

lemma reparse_nearest_state:
  assumes n: "n \<noteq> []" "list_all not_comma n" "\<not> is_space (hd n)"
    and s: "s \<noteq> []" "list_all is_state_char s" "\<not> is_space (hd s)" "\<not> is_space (last s)"
    and pre: "\<not> starts_with distance_part n" "\<not> starts_with direction_part n"
  shows "parse_place (n @ '', '' @ s) =
           Inr \<lparr>distance = None, direction = None, nearest = Some (strip n), state = Some s\<rparr>"
proof -
  let ?t = "n @ '', '' @ s"
  have t: "?t = n @ CHR '','' # (CHR '' '' # s)" by simp
  have "hd ?t = hd n" "last ?t = last s" using n(1) s(1) by simp_all
  hence "trimmed ?t" using n(3) s(4) by (simp add: trimmed_def)
  hence st: "strip ?t = ?t" by (rule strip_trimmed)
  have nt: "?t = [] \<or> \<not> is_space (last ?t)" using \<open>trimmed ?t\<close> by (rule trimmed_no_trail)
  have p1: "\<not> starts_with distance_part ?t"
    unfolding t by (rule starts_with_barrier[OF avoids_comma(1) pre(1)])
  have p2: "\<not> starts_with direction_part ?t"
    unfolding t by (rule starts_with_barrier[OF avoids_comma(2) pre(2)])
  have "\<forall>x \<in> set n. not_comma x" using n(2) by (simp add: list_all_iff)
  hence tw: "takeWhile not_comma ?t = n" and dw: "dropWhile not_comma ?t = CHR '','' # (CHR '' '' # s)"
    by (simp_all add: not_comma_def)
  have "dropWhile is_space s = s" using s(1,3) by (cases s) auto
  hence ds: "dropWhile is_space (CHR '' '' # s) = s" by (simp add: is_space_def)
  have "first_of (ms nearest_part (?t, Map.empty)) =
          Some ([], [''nearest'' \<mapsto> n, ''state'' \<mapsto> s])"
    using n(1) s(1,2) by (simp only: first_nearest_part[OF nt] tw dw ds list.case) simp
  hence "first_of (ms place_pattern (?t, Map.empty)) =
          Some ([], [''nearest'' \<mapsto> n, ''state'' \<mapsto> s])"
    by (simp only: no_prefix_matches[OF p1 p2])
  hence "re_match place_pattern (strip ?t) = Some [''nearest'' \<mapsto> n, ''state'' \<mapsto> s]"
    by (simp only: st re_match_first) simp
  thus ?thesis by (simp add: parse_place_def)
qed

lemma parse_place_plain_text:
  assumes "list_all not_comma txt" "strip txt \<noteq> []"
    and "\<not> starts_with distance_part (strip txt)" "\<not> starts_with direction_part (strip txt)"
  shows "parse_place txt =
           Inr \<lparr>distance = None, direction = None, nearest = Some (strip txt), state = None\<rparr>"
proof -
  let ?t = "strip txt"
  have nt: "?t = [] \<or> \<not> is_space (last ?t)" by (rule trimmed_no_trail[OF trimmed_strip])
  have "set ?t \<subseteq> set txt" by (rule set_strip)
  hence "\<forall>x \<in> set ?t. not_comma x" using assms(1) by (auto simp: list_all_iff)
  hence tw: "takeWhile not_comma ?t = ?t" and dw: "dropWhile not_comma ?t = []"
    by simp_all
  have "first_of (ms nearest_part (?t, Map.empty)) = Some ([], [''nearest'' \<mapsto> ?t])"
    using assms(2) by (simp only: first_nearest_part[OF nt] tw dw list.case) simp
  hence "first_of (ms place_pattern (?t, Map.empty)) = Some ([], [''nearest'' \<mapsto> ?t])"
    by (simp only: no_prefix_matches[OF assms(3,4)])
  hence "re_match place_pattern ?t = Some [''nearest'' \<mapsto> ?t]"
    by (simp only: re_match_first) simp
  thus ?thesis by (simp add: parse_place_def strip_idem)
qed


section \<open>Region mapping\<close>

text \<open>
  C5.  The region mapping is total.  A state name listed in one of the four buckets of
  the region table is mapped to the name of that bucket, which is one of Northeast,
  Midwest, South and West, and it is listed in no bucket of another name.  Every other
  string, a missing state and a number are mapped to Non-US.
\<close>

theorem region_mapping_total:
  "(\<forall>region states s. (region, states) \<in> set us_regions \<and> s \<in> set states \<longrightarrow>
       region_of (Str s) = region
     \<and> region \<in> {''Northeast'', ''Midwest'', ''South'', ''West''}
     \<and> (\<forall>region' states'. (region', states') \<in> set us_regions \<and> s \<in> set states' \<longrightarrow> region' = region))
   \<and> (\<forall>s. s \<notin> set (concat (map snd us_regions)) \<longrightarrow> region_of (Str s) = ''Non-US'')
   \<and> region_of NA = ''Non-US''
   \<and> (\<forall>v. region_of (Num v) = ''Non-US'')"
proof (intro conjI allI impI)
  fix region states s
  assume a: "(region, states) \<in> set us_regions \<and> s \<in> set states"
  hence r: "state_to_region s = Some region" using state_to_region_listed by fastforce
  show "region_of (Str s) = region" by (simp add: region_of_def r)
  show "region \<in> {''Northeast'', ''Midwest'', ''South'', ''West''}"
    using a region_names by fastforce
  fix region' states'
  assume "(region', states') \<in> set us_regions \<and> s \<in> set states'"
  hence "state_to_region s = Some region'" using state_to_region_listed by fastforce
  with r show "region' = region" by simp
next
  fix s assume "s \<notin> set (concat (map snd us_regions))"
  hence "state_to_region s = None" using state_to_region_None by blast
  thus "region_of (Str s) = ''Non-US''" by (simp add: region_of_def)
qed (simp_all add: region_of_def)

theorem region_mapping_total_witness:
  "(''West'', snd (us_regions ! 3)) \<in> set us_regions \<and> ''Alaska'' \<in> set (snd (us_regions ! 3))
   \<and> region_of (Str ''Alaska'') = ''West''
   \<and> ''Quebec'' \<notin> set (concat (map snd us_regions))
   \<and> region_of (Str ''Quebec'') = ''Non-US''"
proof -
  have a: "(''West'', snd (us_regions ! 3)) \<in> set us_regions \<and> ''Alaska'' \<in> set (snd (us_regions ! 3))"
    by code_simp
  have b: "''Quebec'' \<notin> set (concat (map snd us_regions))"
    by code_simp
  from region_mapping_total a b show ?thesis by blast
qed


section \<open>Expansion of state abbreviations\<close>

text \<open>
  C6.  Expanding a full state name (a value of the abbreviation table) returns it
  unchanged; expanding a string that is no key of the table and carries no whitespace
  at its ends, as every unrecognised abbreviation does, returns it unchanged; a missing
  value is returned as it is; expanding a string never fails and expanding its result
  again changes nothing.
\<close>

theorem expand_state_name_fixed_points:
  "(\<forall>abbr full. (abbr, full) \<in> set state_mapping \<longrightarrow> expand_state_name (Str full) = Inr (Str full))
   \<and> (\<forall>s. map_of state_mapping s = None \<and> strip s = s \<longrightarrow> expand_state_name (Str s) = Inr (Str s))
   \<and> expand_state_name NA = Inr NA
   \<and> (\<forall>s y. expand_state_name (Str s) = Inr y \<longrightarrow> expand_state_name y = Inr y)
   \<and> (\<forall>s. \<exists>y. expand_state_name (Str s) = Inr (Str y))"
proof (intro conjI allI impI)
  fix s assume "map_of state_mapping s = None \<and> strip s = s"
  thus "expand_state_name (Str s) = Inr (Str s)" by (simp add: expand_Str)
next
  show "expand_state_name NA = Inr NA" by (simp add: expand_state_name_def)
next
  fix s show "\<exists>y. expand_state_name (Str s) = Inr (Str y)" by (simp add: expand_Str)
qed (auto intro: expand_full_name expand_twice)

theorem expand_state_name_fixed_points_witness:
  "(''CA'', ''California'') \<in> set state_mapping
   \<and> expand_state_name (Str ''California'') = Inr (Str ''California'')
   \<and> map_of state_mapping ''ZZ'' = None \<and> strip ''ZZ'' = ''ZZ''
   \<and> expand_state_name (Str ''ZZ'') = Inr (Str ''ZZ'')
   \<and> expand_state_name (Str ''CA'') = Inr (Str ''California'')
   \<and> expand_state_name (Str ''California'') = Inr (Str ''California'')"
proof -
  have a: "(''CA'', ''California'') \<in> set state_mapping" by code_simp
  have b: "map_of state_mapping ''ZZ'' = None \<and> strip ''ZZ'' = ''ZZ''" by code_simp
  have c: "expand_state_name (Str ''CA'') = Inr (Str ''California'')" by code_simp
  from expand_state_name_fixed_points a b c show ?thesis by metis
qed


section \<open>The fetch of one month\<close>

text \<open>
  C7.  When the event feed answers the request for a month with a status other than
  200, \<^verbatim>\<open>fetch_month_data\<close> raises nothing: it prints the diagnostic and returns the
  empty frame.  The loop of \<^verbatim>\<open>load_earthquake_data\<close> then collects nothing for that
  month and goes on with the months that are left.
\<close>

theorem failed_fetch_is_empty_month:
  assumes days: "monthrange_days year month = Inr last_day"
    and get: "http_get \<lparr>format = ''csv'', starttime = (year, month, 1), endtime = (year, month, last_day),
                        minmagnitude = min_magnitude, orderby = ''time''\<rparr> = Inr resp"
    and status: "status_code resp \<noteq> 200"
  shows "fetch_month_data http_get read_csv year month =
           ([Fetching (year, month, 1) (year, month, last_day),
             FetchFailed year month (status_code resp)], Inr [])
       \<and> load_months http_get read_csv ((year, month) # rest) all_data =
           (case load_months http_get read_csv rest all_data of
              (out, res) \<Rightarrow>
                ([Fetching (year, month, 1) (year, month, last_day),
                  FetchFailed year month (status_code resp)] @ out, res))"
proof -
  have f: "fetch_month_data http_get read_csv year month =
           ([Fetching (year, month, 1) (year, month, last_day),
             FetchFailed year month (status_code resp)], Inr [])"
    unfolding fetch_month_data_def by (simp add: days get status Let_def)
  show ?thesis unfolding f by (simp add: f split: prod.splits)
qed

theorem failed_fetch_is_empty_month_witness:
  "monthrange_days 2020 2 = Inr 29
   \<and> status_code \<lparr>status_code = 503, content = []\<rparr> \<noteq> 200
   \<and> fetch_month_data (\<lambda>q. Inr \<lparr>status_code = 503, content = []\<rparr>) (\<lambda>s. Inr []) 2020 2 =
       ([Fetching (2020, 2, 1) (2020, 2, 29), FetchFailed 2020 2 503], Inr [])
   \<and> load_months (\<lambda>q. Inr \<lparr>status_code = 503, content = []\<rparr>) (\<lambda>s. Inr []) [(2020, 2)] [[[(''id'', Str ''a'')]]] =
       ([Fetching (2020, 2, 1) (2020, 2, 29), FetchFailed 2020 2 503], Inr [[[(''id'', Str ''a'')]]])"
proof -
  have d: "monthrange_days 2020 2 = Inr 29" by (simp add: monthrange_days_def isleap_def)
  have s: "status_code \<lparr>status_code = 503, content = []\<rparr> \<noteq> 200" by simp
  from failed_fetch_is_empty_month[OF d _ s, of "\<lambda>q. Inr \<lparr>status_code = 503, content = []\<rparr>" "\<lambda>s. Inr []" "[]" "[[[(''id'', Str ''a'')]]]"] d
  show ?thesis by simp
qed


section \<open>The rows that cleaning and transforming emits\<close>

text \<open>
  C8.  Every row that \<^verbatim>\<open>clean_and_transform_data\<close> emits has a value in every
  column, and it stems from an input row whose place text parses with a distance, a
  direction and a state.  A record whose place text parses without one of the three
  is dropped: a run that returns a frame returns the same frame when these records are
  taken out of its input, so none of them reaches a later stage.
\<close>

theorem emitted_rows_have_no_missing_cell:
  "(\<forall>df out r'. clean_and_transform_data df = Inr out \<and> r' \<in> set out \<longrightarrow>
       (\<forall>(c, v) \<in> set r'. v \<noteq> NA)
     \<and> (\<exists>r \<in> set df. \<exists>t d.
           col ''place'' AttributeError r = Inr (Str t) \<and> parse_place t = Inr d
         \<and> distance d \<noteq> None \<and> direction d \<noteq> None \<and> state d \<noteq> None
         \<and> finish_row (r @ parsed_columns d) = Inr r'))
   \<and> (\<forall>r t d. col ''place'' AttributeError r = Inr (Str t) \<and> parse_place t = Inr d
         \<and> (distance d = None \<or> direction d = None \<or> state d = None) \<longrightarrow>
       lacks_field r)
   \<and> (\<forall>df out. clean_and_transform_data df = Inr out \<longrightarrow>
       clean_and_transform_data (filter (\<lambda>r. \<not> lacks_field r) df) = Inr out)"
proof (intro conjI allI impI)
  fix df out r'
  assume a: "clean_and_transform_data df = Inr out \<and> r' \<in> set out"
  then obtain r t d where o: "r \<in> set df" "col ''place'' AttributeError r = Inr (Str t)"
    "parse_place t = Inr d" "complete (r @ parsed_columns d)"
    "finish_row (r @ parsed_columns d) = Inr r'"
    using emitted_row_origin by blast
  from finish_row_complete[OF o(5) o(4)] show "\<forall>(c, v) \<in> set r'. v \<noteq> NA"
    by (simp add: complete_iff)
  from complete_parsed[OF o(4)] o
  show "\<exists>r \<in> set df. \<exists>t d.
           col ''place'' AttributeError r = Inr (Str t) \<and> parse_place t = Inr d
         \<and> distance d \<noteq> None \<and> direction d \<noteq> None \<and> state d \<noteq> None
         \<and> finish_row (r @ parsed_columns d) = Inr r'"
    by blast
next
  fix r t d
  assume "col ''place'' AttributeError r = Inr (Str t) \<and> parse_place t = Inr d
         \<and> (distance d = None \<or> direction d = None \<or> state d = None)"
  thus "lacks_field r" by (simp add: lacks_field_def)
next
  fix df out
  assume "clean_and_transform_data df = Inr out"
  thus "clean_and_transform_data (filter (\<lambda>r. \<not> lacks_field r) df) = Inr out"
    by (rule clean_without) simp
qed

theorem emitted_rows_have_no_missing_cell_witness:
  "clean_and_transform_data
     [[(''id'', Str ''ci1''), (''latitude'', Num 34), (''longitude'', Num (- 117)),
       (''place'', Str ''3km ENE of Springfield, IL'')],
      [(''id'', Str ''us2''), (''latitude'', Num (- 55)), (''longitude'', Num (- 130)),
       (''place'', Str ''Pacific-Antarctic Ridge'')]]
   = Inr [[(''earthquake_id'', Str ''ci1''), (''latitude'', Num 34), (''longitude'', Num (- 117)),
           (''offset_distance'', Str ''3km''), (''offset_direction'', Str ''ENE''),
           (''nearest_locality'', Str ''Springfield''), (''state'', Str ''Illinois''),
           (''country'', Str ''United States''), (''continent'', Str ''North America'')]]
   \<and> complete [(''earthquake_id'', Str ''ci1''), (''latitude'', Num 34), (''longitude'', Num (- 117)),
           (''offset_distance'', Str ''3km''), (''offset_direction'', Str ''ENE''),
           (''nearest_locality'', Str ''Springfield''), (''state'', Str ''Illinois''),
           (''country'', Str ''United States''), (''continent'', Str ''North America'')]
   \<and> col ''place'' AttributeError
         [(''id'', Str ''us2''), (''latitude'', Num (- 55)), (''longitude'', Num (- 130)),
          (''place'', Str ''Pacific-Antarctic Ridge'')]
       = Inr (Str ''Pacific-Antarctic Ridge'')
   \<and> parse_place ''Pacific-Antarctic Ridge''
       = Inr \<lparr>distance = None, direction = None, nearest = Some ''Pacific-Antarctic Ridge'', state = None\<rparr>
   \<and> clean_and_transform_data
         [[(''id'', Str ''ci1''), (''latitude'', Num 34), (''longitude'', Num (- 117)),
           (''place'', Str ''3km ENE of Springfield, IL'')]]
       = Inr [[(''earthquake_id'', Str ''ci1''), (''latitude'', Num 34), (''longitude'', Num (- 117)),
           (''offset_distance'', Str ''3km''), (''offset_direction'', Str ''ENE''),
           (''nearest_locality'', Str ''Springfield''), (''state'', Str ''Illinois''),
           (''country'', Str ''United States''), (''continent'', Str ''North America'')]]"
proof -
  let ?spr = "[(''id'', Str ''ci1''), (''latitude'', Num 34), (''longitude'', Num (- 117)),
       (''place'', Str ''3km ENE of Springfield, IL'')]"
  let ?pac = "[(''id'', Str ''us2''), (''latitude'', Num (- 55)), (''longitude'', Num (- 130)),
       (''place'', Str ''Pacific-Antarctic Ridge'')]"
  let ?r' = "[(''earthquake_id'', Str ''ci1''), (''latitude'', Num 34), (''longitude'', Num (- 117)),
           (''offset_distance'', Str ''3km''), (''offset_direction'', Str ''ENE''),
           (''nearest_locality'', Str ''Springfield''), (''state'', Str ''Illinois''),
           (''country'', Str ''United States''), (''continent'', Str ''North America'')]"
  have a: "clean_and_transform_data [?spr, ?pac] = Inr [?r']" by code_simp
  have b: "col ''place'' AttributeError ?pac = Inr (Str ''Pacific-Antarctic Ridge'')" by code_simp
  have c: "parse_place ''Pacific-Antarctic Ridge''
       = Inr \<lparr>distance = None, direction = None, nearest = Some ''Pacific-Antarctic Ridge'', state = None\<rparr>"
    by code_simp
  have k: "\<not> lacks_field ?spr" by code_simp
  have m: "?r' \<in> set [?r']" by simp
  from emitted_rows_have_no_missing_cell have
    1: "\<And>df out r'. clean_and_transform_data df = Inr out \<and> r' \<in> set out \<Longrightarrow> (\<forall>(c, v) \<in> set r'. v \<noteq> NA)"
    and 2: "\<And>r t d. col ''place'' AttributeError r = Inr (Str t) \<and> parse_place t = Inr d
         \<and> (distance d = None \<or> direction d = None \<or> state d = None) \<Longrightarrow> lacks_field r"
    and 3: "\<And>df out. clean_and_transform_data df = Inr out \<Longrightarrow>
       clean_and_transform_data (filter (\<lambda>r. \<not> lacks_field r) df) = Inr out"
    by blast+
  from 1[of "[?spr, ?pac]" "[?r']" ?r'] a m have "\<forall>(c, v) \<in> set ?r'. v \<noteq> NA" by blast
  hence x: "complete ?r'" by (simp only: complete_iff)
  from 2[of ?pac "''Pacific-Antarctic Ridge''"
      "\<lparr>distance = None, direction = None, nearest = Some ''Pacific-Antarctic Ridge'', state = None\<rparr>"] b c
  have l: "lacks_field ?pac" by simp
  from l k have "filter (\<lambda>r. \<not> lacks_field r) [?spr, ?pac] = [?spr]" by simp
  with 3[OF a] have y: "clean_and_transform_data [?spr] = Inr [?r']" by simp
  from a x b c y show ?thesis by blast
qed


section \<open>States of the region table that the country filter removes\<close>

text \<open>
  C9.  Ohio, Iowa, Michigan, Delaware, Rhode Island, Vermont and North Dakota are
  listed in the region table, which gives each of them a region, yet
  \<^verbatim>\<open>get_country_continent\<close> answers Unknown, Unknown for each.  So no row that
  \<^verbatim>\<open>clean_and_transform_data\<close> emits has one of them as its state, and a record
  whose parsed state expands to one of them yields no row.
\<close>

theorem listed_states_removed_by_country_filter:
  "\<forall>s \<in> set [''Ohio'', ''Iowa'', ''Michigan'', ''Delaware'', ''Rhode Island'', ''Vermont'', ''North Dakota''].
       s \<in> set (concat (map snd us_regions))
     \<and> region_of (Str s) \<noteq> ''Non-US''
     \<and> get_country_continent (Str s) = Inr (''Unknown'', ''Unknown'')
     \<and> (\<forall>df out r'. clean_and_transform_data df = Inr out \<and> r' \<in> set out \<longrightarrow>
           map_of r' ''state'' \<noteq> Some (Str s))
     \<and> (\<forall>r t d st out. col ''place'' AttributeError r = Inr (Str t) \<and> parse_place t = Inr d
           \<and> state d = Some st \<and> expand_state_name (Str st) = Inr (Str s)
           \<and> clean_and_transform_data [r] = Inr out \<longrightarrow> out = [])"
proof (intro ballI conjI allI impI)
  fix s
  assume s: "s \<in> set [''Ohio'', ''Iowa'', ''Michigan'', ''Delaware'', ''Rhode Island'', ''Vermont'', ''North Dakota'']"
  with unlisted_seven have u: "s \<in> set (concat (map snd us_regions))" "state_to_region s \<noteq> None"
    "strip s = s" "s \<notin> us_states" "s \<notin> us_territories"
    by blast+
  show "s \<in> set (concat (map snd us_regions))" by (rule u(1))
  from u(2) obtain region where reg: "state_to_region s = Some region" by blast
  then obtain states where "(region, states) \<in> set us_regions" "s \<in> set states"
    using u(1) state_to_region_listed by fastforce
  hence "region \<in> {''Northeast'', ''Midwest'', ''South'', ''West''}" using region_names by fastforce
  thus "region_of (Str s) \<noteq> ''Non-US''" by (auto simp: region_of_def reg)
  show g: "get_country_continent (Str s) = Inr (''Unknown'', ''Unknown'')"
    by (simp add: get_country_continent_def Let_def u)
  {
    fix df out r'
    assume a: "clean_and_transform_data df = Inr out \<and> r' \<in> set out"
    then obtain r t d where o: "finish_row (r @ parsed_columns d) = Inr r'"
      "map_of r' ''country'' = Some (Str ''United States'')"
      using emitted_row_origin by blast
    from finish_row_state[OF o] obtain st' where
      "map_of r' ''state'' = Some st'" "get_country_continent st' = Inr (''United States'', ''North America'')"
      by blast
    with g show "map_of r' ''state'' \<noteq> Some (Str s)" by auto
  }
  {
    fix r t d st out
    assume a: "col ''place'' AttributeError r = Inr (Str t) \<and> parse_place t = Inr d
           \<and> state d = Some st \<and> expand_state_name (Str st) = Inr (Str s)
           \<and> clean_and_transform_data [r] = Inr out"
    show "out = []"
    proof (rule ccontr)
      assume "out \<noteq> []"
      then obtain r' where r': "r' \<in> set out" by (cases out) auto
      with a emitted_row_origin[of "[r]" out r'] obtain t2 d2 where
        o: "col ''place'' AttributeError r = Inr (Str t2)" "parse_place t2 = Inr d2"
        "finish_row (r @ parsed_columns d2) = Inr r'"
        "map_of r' ''country'' = Some (Str ''United States'')"
        by auto
      from o(1,2) a have d2: "d2 = d" by simp
      from finish_row_state[OF o(3,4)] obtain st0 st' where
        f: "col ''state'' ValueError (r @ parsed_columns d2) = Inr st0" "expand_state_name st0 = Inr st'"
        "get_country_continent st' = Inr (''United States'', ''North America'')"
        by blast
      from col_parsed_state[OF f(1)] a d2 have "st0 = Str st" by (simp add: cell_of_def)
      with f(2) a have "st' = Str s" by simp
      with f(3) g show False by simp
    qed
  }
qed

theorem listed_states_removed_by_country_filter_witness:
  "''Ohio'' \<in> set [''Ohio'', ''Iowa'', ''Michigan'', ''Delaware'', ''Rhode Island'', ''Vermont'', ''North Dakota'']
   \<and> region_of (Str ''Ohio'') = ''Midwest''
   \<and> get_country_continent (Str ''Ohio'') = Inr (''Unknown'', ''Unknown'')
   \<and> col ''place'' AttributeError [(''id'', Str ''oh1''), (''place'', Str ''5 km N of Columbus, OH'')]
       = Inr (Str ''5 km N of Columbus, OH'')
   \<and> parse_place ''5 km N of Columbus, OH''
       = Inr \<lparr>distance = Some ''5 km'', direction = Some ''N'', nearest = Some ''Columbus'', state = Some ''OH''\<rparr>
   \<and> expand_state_name (Str ''OH'') = Inr (Str ''Ohio'')
   \<and> clean_and_transform_data [[(''id'', Str ''oh1''), (''place'', Str ''5 km N of Columbus, OH'')]] = Inr []"
proof -
  let ?r = "[(''id'', Str ''oh1''), (''place'', Str ''5 km N of Columbus, OH'')]"
  have m: "''Ohio'' \<in> set [''Ohio'', ''Iowa'', ''Michigan'', ''Delaware'', ''Rhode Island'', ''Vermont'', ''North Dakota'']"
    by simp
  have a: "region_of (Str ''Ohio'') = ''Midwest''" by code_simp
  have b: "col ''place'' AttributeError ?r = Inr (Str ''5 km N of Columbus, OH'')" by code_simp
  have c: "parse_place ''5 km N of Columbus, OH''
       = Inr \<lparr>distance = Some ''5 km'', direction = Some ''N'', nearest = Some ''Columbus'', state = Some ''OH''\<rparr>"
    by code_simp
  have e: "expand_state_name (Str ''OH'') = Inr (Str ''Ohio'')" by code_simp
  have f: "clean_and_transform_data [?r] = Inr []" by code_simp
  from listed_states_removed_by_country_filter m
  have "get_country_continent (Str ''Ohio'') = Inr (''Unknown'', ''Unknown'')" by blast
  with m a b c e f show ?thesis by blast
qed


section \<open>The record of Anchorage\<close>

text \<open>
  C4, as the code has it.  The place text "Anchorage, Alaska" parses to no distance,
  no direction, the nearest locality Anchorage and the state Alaska, and the region
  index maps Alaska to West.  The record itself is dropped by
  \<^verbatim>\<open>clean_and_transform_data\<close>, its distance and direction being missing: a run of
  that stage, or of steps 2 to 4 of the pipeline, that returns a frame returns the
  same frame when the records of this place are taken out of its input.  So the record
  never reaches the assignment of regions, and no row of the result is its row.
\<close>

theorem anchorage_parsed_and_dropped:
  "parse_place ''Anchorage, Alaska''
     = Inr \<lparr>distance = None, direction = None, nearest = Some ''Anchorage'', state = Some ''Alaska''\<rparr>
   \<and> region_of (Str ''Alaska'') = ''West''
   \<and> (\<forall>df out. clean_and_transform_data df = Inr out \<longrightarrow>
         clean_and_transform_data
           (filter (\<lambda>r. col ''place'' AttributeError r \<noteq> Inr (Str ''Anchorage, Alaska'')) df) = Inr out)
   \<and> (\<forall>isect counties clean_distance df out.
         run_stages isect counties clean_distance df = Inr out \<longrightarrow>
         run_stages isect counties clean_distance
           (filter (\<lambda>r. col ''place'' AttributeError r \<noteq> Inr (Str ''Anchorage, Alaska'')) df) = Inr out)"
proof (intro conjI allI impI)
  show p: "parse_place ''Anchorage, Alaska''
     = Inr \<lparr>distance = None, direction = None, nearest = Some ''Anchorage'', state = Some ''Alaska''\<rparr>"
    by code_simp
  show "region_of (Str ''Alaska'') = ''West''" by code_simp
  have l: "lacks_field r" if "\<not> col ''place'' AttributeError r \<noteq> Inr (Str ''Anchorage, Alaska'')" for r
    using that by (simp add: lacks_field_def p)
  {
    fix df out
    assume "clean_and_transform_data df = Inr out"
    thus "clean_and_transform_data
           (filter (\<lambda>r. col ''place'' AttributeError r \<noteq> Inr (Str ''Anchorage, Alaska'')) df) = Inr out"
      by (rule clean_without) (rule l)
  }
  {
    fix isect :: "cell \<times> cell \<Rightarrow> 'g \<Rightarrow> bool" and counties clean_distance df out
    assume "run_stages isect counties clean_distance df = Inr out"
    thus "run_stages isect counties clean_distance
           (filter (\<lambda>r. col ''place'' AttributeError r \<noteq> Inr (Str ''Anchorage, Alaska'')) df) = Inr out"
      by (rule run_stages_without) (rule l)
  }
qed

theorem anchorage_parsed_and_dropped_witness:
  "clean_and_transform_data
     [[(''id'', Str ''ak0001''), (''latitude'', Num 61), (''longitude'', Num (- 150)),
       (''place'', Str ''Anchorage, Alaska'')],
      [(''id'', Str ''il0002''), (''latitude'', Num 40), (''longitude'', Num (- 90)),
       (''place'', Str ''3km ENE of Springfield, IL'')]]
   = Inr [[(''earthquake_id'', Str ''il0002''), (''latitude'', Num 40), (''longitude'', Num (- 90)),
           (''offset_distance'', Str ''3km''), (''offset_direction'', Str ''ENE''),
           (''nearest_locality'', Str ''Springfield''), (''state'', Str ''Illinois''),
           (''country'', Str ''United States''), (''continent'', Str ''North America'')]]
   \<and> clean_and_transform_data
         [[(''id'', Str ''il0002''), (''latitude'', Num 40), (''longitude'', Num (- 90)),
           (''place'', Str ''3km ENE of Springfield, IL'')]]
       = Inr [[(''earthquake_id'', Str ''il0002''), (''latitude'', Num 40), (''longitude'', Num (- 90)),
           (''offset_distance'', Str ''3km''), (''offset_direction'', Str ''ENE''),
           (''nearest_locality'', Str ''Springfield''), (''state'', Str ''Illinois''),
           (''country'', Str ''United States''), (''continent'', Str ''North America'')]]"
proof -
  let ?anc = "[(''id'', Str ''ak0001''), (''latitude'', Num 61), (''longitude'', Num (- 150)),
       (''place'', Str ''Anchorage, Alaska'')]"
  let ?spr = "[(''id'', Str ''il0002''), (''latitude'', Num 40), (''longitude'', Num (- 90)),
       (''place'', Str ''3km ENE of Springfield, IL'')]"
  let ?r' = "[(''earthquake_id'', Str ''il0002''), (''latitude'', Num 40), (''longitude'', Num (- 90)),
           (''offset_distance'', Str ''3km''), (''offset_direction'', Str ''ENE''),
           (''nearest_locality'', Str ''Springfield''), (''state'', Str ''Illinois''),
           (''country'', Str ''United States''), (''continent'', Str ''North America'')]"
  have a: "clean_and_transform_data [?anc, ?spr] = Inr [?r']" by code_simp
  have f: "filter (\<lambda>r. col ''place'' AttributeError r \<noteq> Inr (Str ''Anchorage, Alaska'')) [?anc, ?spr] = [?spr]"
    by code_simp
  from anchorage_parsed_and_dropped a
  have "clean_and_transform_data
          (filter (\<lambda>r. col ''place'' AttributeError r \<noteq> Inr (Str ''Anchorage, Alaska'')) [?anc, ?spr]) = Inr [?r']"
    by blast
  with a f show ?thesis by simp
qed

theorem anchorage_has_no_region_counterexample:
  "clean_and_transform_data
     [[(''id'', Str ''ak0001''), (''latitude'', Num 61), (''longitude'', Num (- 150)),
       (''place'', Str ''Anchorage, Alaska'')],
      [(''id'', Str ''il0002''), (''latitude'', Num 40), (''longitude'', Num (- 90)),
       (''place'', Str ''3km ENE of Springfield, IL'')]]
   = Inr [[(''earthquake_id'', Str ''il0002''), (''latitude'', Num 40), (''longitude'', Num (- 90)),
           (''offset_distance'', Str ''3km''), (''offset_direction'', Str ''ENE''),
           (''nearest_locality'', Str ''Springfield''), (''state'', Str ''Illinois''),
           (''country'', Str ''United States''), (''continent'', Str ''North America'')]]"
  by code_simp


section \<open>County resolution\<close>

text \<open>
  C1, as the code has it.  For one input point the join emits one row for every
  county whose geometry intersects the point, carrying the name of that county, and a
  single row with a missing county when none does.  So a point that intersects at most
  one county gets exactly one row; nothing removes the further rows of a point that
  intersects several.
\<close>

theorem county_rows_one_per_intersecting_county:
  "map (\<lambda>r'. (take (length r) r', snd (last r'))) (county_rows isect counties r pt) =
     (case filter (\<lambda>(name, geom). isect pt geom) counties of
        [] \<Rightarrow> [(r, NA)]
      | hits \<Rightarrow> map (\<lambda>(name, geom). (r, Str name)) hits)
   \<and> length (county_rows isect counties r pt) =
       max 1 (length (filter (\<lambda>(name, geom). isect pt geom) counties))
   \<and> (length (filter (\<lambda>(name, geom). isect pt geom) counties) \<le> 1 \<longrightarrow>
        length (county_rows isect counties r pt) = 1)
   \<and> (\<forall>lon lat. map_of r ''longitude'' = Some lon \<and> map_of r ''latitude'' = Some lat \<longrightarrow>
        add_county_data isect counties [r] = Inr (county_rows isect counties r (lon, lat)))"
proof -
  have frame: "\<forall>lon lat. map_of r ''longitude'' = Some lon \<and> map_of r ''latitude'' = Some lat \<longrightarrow>
        add_county_data isect counties [r] = Inr (county_rows isect counties r (lon, lat))"
    by (simp add: add_county_data_def then_do_def)
  let ?hs = "filter (\<lambda>(i, name, geom). isect pt geom) (enumerate 0 counties)"
  let ?cs = "filter (\<lambda>(name, geom). isect pt geom) counties"
  have h: "map snd ?hs = ?cs" by (rule county_hits)
  show ?thesis
  proof (cases ?hs)
    case Nil
    with h have "?cs = []" by simp
    with Nil frame show ?thesis by (simp add: county_rows_cases)
  next
    case (Cons a as)
    hence rows: "county_rows isect counties r pt =
        map (\<lambda>(i, name, geom). r @ [(''index_right'', Num (of_nat i)), (''county'', Str name)]) ?hs"
      by (simp add: county_rows_cases)
    have "map (\<lambda>r'. (take (length r) r', snd (last r'))) (county_rows isect counties r pt) =
            map (\<lambda>(name, geom). (r, Str name)) (map snd ?hs)"
      unfolding rows by (simp add: case_prod_beta comp_def)
    hence 1: "map (\<lambda>r'. (take (length r) r', snd (last r'))) (county_rows isect counties r pt) =
            map (\<lambda>(name, geom). (r, Str name)) ?cs"
      by (simp only: h)
    from Cons h have ne: "?cs \<noteq> []" by auto
    have "length (county_rows isect counties r pt) = length (map snd ?hs)"
      unfolding rows by simp
    hence 2: "length (county_rows isect counties r pt) = length ?cs" by (simp only: h)
    from ne have 3: "1 \<le> length ?cs" by (cases ?cs) auto
    from ne 1 have 4: "map (\<lambda>r'. (take (length r) r', snd (last r'))) (county_rows isect counties r pt) =
     (case ?cs of [] \<Rightarrow> [(r, NA)] | hits \<Rightarrow> map (\<lambda>(name, geom). (r, Str name)) hits)"
      by (cases ?cs) auto
    from 2 3 4 frame show ?thesis by (simp only: max_def) auto
  qed
qed

theorem county_rows_one_per_intersecting_county_witness:
  "length (filter (\<lambda>(name, geom). box_intersects (Num (1 / 2), Num (1 / 2)) geom)
            [(''Adams'', ((0, 0), (1, 1))), (''Brown'', ((1, 0), (2, 1)))]) \<le> 1
   \<and> length (county_rows box_intersects [(''Adams'', ((0, 0), (1, 1))), (''Brown'', ((1, 0), (2, 1)))]
               [(''earthquake_id'', Str ''q1'')] (Num (1 / 2), Num (1 / 2))) = 1"
proof -
  have a: "length (filter (\<lambda>(name, geom). box_intersects (Num (1 / 2), Num (1 / 2)) geom)
            [(''Adams'', ((0, 0), (1, 1))), (''Brown'', ((1, 0), (2, 1)))]) \<le> 1"
    by (simp add: box_intersects_def)
  with county_rows_one_per_intersecting_county show ?thesis by blast
qed

theorem two_counties_for_one_point_counterexample:
  "add_county_data box_intersects [(''Adams'', ((0, 0), (1, 1))), (''Brown'', ((1, 0), (2, 1)))]
     [[(''earthquake_id'', Str ''q1''), (''latitude'', Num 0), (''longitude'', Num 1)]]
   = Inr [[(''earthquake_id'', Str ''q1''), (''latitude'', Num 0), (''longitude'', Num 1),
           (''index_right'', Num 0), (''county'', Str ''Adams'')],
          [(''earthquake_id'', Str ''q1''), (''latitude'', Num 0), (''longitude'', Num 1),
           (''index_right'', Num 1), (''county'', Str ''Brown'')]]"
  by (simp add: add_county_data_def then_do_def county_rows_def box_intersects_def enumerate_eq_zip)


section \<open>Totality of the place parser\<close>

text \<open>
  C10.  \<^verbatim>\<open>parse_place\<close> is total on strings: for every string it raises nothing and
  returns the four entries distance, direction, nearest and state, of which nearest is
  not \<^verbatim>\<open>None\<close>.
\<close>

theorem parse_place_total:
  "\<exists>dist dir n st.
     parse_place txt = Inr \<lparr>distance = dist, direction = dir, nearest = Some n, state = st\<rparr>"
  using parse_place_cases[of "txt"] by blast


section \<open>Parsing the reconstructed place\<close>

text \<open>
  C3, as the code has it.  When \<^verbatim>\<open>parse_place\<close> yields the nearest locality \<open>n\<close> and
  the state \<open>s\<close>, and \<open>n\<close> is not empty and does not itself begin with a distance
  (\<^verbatim>\<open>\d+\s*km\<close>) or a direction (\<^verbatim>\<open>[NSEW]{1,3}\s*of\<close>), then parsing the
  reconstructed text \<open>n, s\<close> yields the same nearest locality and the same state, and
  neither distance nor direction.
\<close>

theorem reparse_is_stable_without_prefix:
  assumes "parse_place txt = Inr d" "nearest d = Some n" "state d = Some s"
    and "n \<noteq> []" "\<not> starts_with distance_part n" "\<not> starts_with direction_part n"
  shows "parse_place (n @ '', '' @ s) =
           Inr \<lparr>distance = None, direction = None, nearest = Some n, state = Some s\<rparr>"
proof -
  from parse_place_state_shape[OF assms(1,2,3)] obtain u where
    u: "n = strip u" "list_all not_comma u"
    and s: "s \<noteq> []" "list_all is_state_char s" "\<not> is_space (hd s)" "\<not> is_space (last s)"
    by blast
  have "set n \<subseteq> set u" unfolding u(1) by (rule set_strip)
  hence nc: "list_all not_comma n" using u(2) by (auto simp: list_all_iff)
  have "trimmed n" unfolding u(1) by (rule trimmed_strip)
  with assms(4) have hd: "\<not> is_space (hd n)" by (simp add: trimmed_def)
  have "strip n = n" using \<open>trimmed n\<close> by (rule strip_trimmed)
  with reparse_nearest_state[OF assms(4) nc hd s assms(5,6)] show ?thesis by simp
qed

theorem reparse_is_stable_without_prefix_witness:
  "parse_place ''3km ENE of Springfield, IL'' =
     Inr \<lparr>distance = Some ''3km'', direction = Some ''ENE'', nearest = Some ''Springfield'',
          state = Some ''IL''\<rparr>
   \<and> ''Springfield'' \<noteq> []
   \<and> \<not> starts_with distance_part ''Springfield''
   \<and> \<not> starts_with direction_part ''Springfield''
   \<and> parse_place (''Springfield'' @ '', '' @ ''IL'') =
       Inr \<lparr>distance = None, direction = None, nearest = Some ''Springfield'', state = Some ''IL''\<rparr>"
proof -
  have a: "parse_place ''3km ENE of Springfield, IL'' =
     Inr \<lparr>distance = Some ''3km'', direction = Some ''ENE'', nearest = Some ''Springfield'',
          state = Some ''IL''\<rparr>"
    by code_simp
  have b: "\<not> starts_with distance_part ''Springfield''" by code_simp
  have c: "\<not> starts_with direction_part ''Springfield''" by code_simp
  have d: "''Springfield'' \<noteq> []" by simp
  from reparse_is_stable_without_prefix[OF a _ _ d b c] a b c d show ?thesis by simp
qed

theorem reparse_changes_nearest_counterexample:
  "parse_place ''3km N of 7km S of Hilo, Hawaii'' =
     Inr \<lparr>distance = Some ''3km'', direction = Some ''N'', nearest = Some ''7km S of Hilo'',
          state = Some ''Hawaii''\<rparr>
   \<and> parse_place (''7km S of Hilo'' @ '', '' @ ''Hawaii'') =
       Inr \<lparr>distance = Some ''7km'', direction = Some ''S'', nearest = Some ''Hilo'',
            state = Some ''Hawaii''\<rparr>
   \<and> ''Hilo'' \<noteq> ''7km S of Hilo''"
  by code_simp


section \<open>The fallback of the place parser\<close>

text \<open>
  C2 at two inputs that the pattern does not match.  A single space has no comma and
  no prefix; its stripped form is empty.  The second text holds two commas.  In both
  cases \<^verbatim>\<open>parse_place\<close> returns the text as it was given, whitespace included, not
  the stripped text.
\<close>

theorem fallback_returns_unstripped_text:
  "parse_place '' '' = Inr \<lparr>distance = None, direction = None, nearest = Some '' '', state = None\<rparr>
   \<and> strip '' '' = []
   \<and> parse_place '' Fiji region, 2024, offshore '' =
       Inr \<lparr>distance = None, direction = None, nearest = Some '' Fiji region, 2024, offshore '',
            state = None\<rparr>
   \<and> strip '' Fiji region, 2024, offshore '' = ''Fiji region, 2024, offshore''"
  by code_simp

end
